theory Spec2Isabelle
  imports Main
begin

section \<open>Strings as the handlers see them\<close>

text \<open>
  A JavaScript string is a sequence of UTF-16 code units. The model takes a string to be a
  \<^typ>\<open>char list\<close>, a character being a code unit below 256 (Latin-1). Character
  predicates are those of ECMAScript restricted to that range.
\<close>

definition isDigit :: "char \<Rightarrow> bool" where
  \<comment> \<open>the class \<open>\d\<close>: \<open>[0-9]\<close>\<close>
  "isDigit c = (c \<in> set ''0123456789'')"

definition isWordChar :: "char \<Rightarrow> bool" where
  \<comment> \<open>the class \<open>\w\<close>, which decides \<open>\b\<close>: \<open>[A-Za-z0-9_]\<close>\<close>
  "isWordChar c =
     (c \<in> set ''abcdefghijklmnopqrstuvwxyzABCDEFGHIJKLMNOPQRSTUVWXYZ0123456789_'')"

definition isSpace :: "char \<Rightarrow> bool" where
  \<comment> \<open>the class \<open>\s\<close> and what \<open>trim\<close> strips: TAB, LF, VT, FF, CR, SP, NBSP\<close>
  "isSpace c = (c \<in> set [CHR 0x09, CHR 0x0A, CHR 0x0B, CHR 0x0C, CHR 0x0D, CHR 0x20, CHR 0xA0])"

definition isLineTerminator :: "char \<Rightarrow> bool" where
  \<comment> \<open>what \<open>.\<close> does not match\<close>
  "isLineTerminator c = (c = CHR 0x0A \<or> c = CHR 0x0D)"

definition toLowerChar :: "char \<Rightarrow> char" where
  \<comment> \<open>\<open>String.prototype.toLowerCase\<close> on one code unit: A-Z and the Latin-1 capitals\<close>
  "toLowerChar c =
     (let n = (of_char c :: nat) in
      if (65 \<le> n \<and> n \<le> 90) \<or> (192 \<le> n \<and> n \<le> 222 \<and> n \<noteq> 215)
      then char_of (n + 32) else c)"

definition toLowerCase :: "string \<Rightarrow> string" where
  "toLowerCase s = map toLowerChar s"

definition canonicalize :: "char \<Rightarrow> char" where
  \<comment> \<open>the case folding of a regular expression with the \<open>i\<close> flag (and no \<open>u\<close> flag):
      the upper case of the unit when that is a single unit; \<open>0xB5\<close> and \<open>0xFF\<close>, whose
      upper cases lie beyond Latin-1 and are shared with no unit of the model, and
      \<open>0xDF\<close>, whose upper case is two units, stand for themselves\<close>
  "canonicalize c =
     (let n = (of_char c :: nat) in
      if (97 \<le> n \<and> n \<le> 122) \<or> (224 \<le> n \<and> n \<le> 254 \<and> n \<noteq> 247)
      then char_of (n - 32) else c)"

definition trim :: "string \<Rightarrow> string" where
  \<comment> \<open>\<open>String.prototype.trim\<close>\<close>
  "trim s = rev (dropWhile isSpace (rev (dropWhile isSpace s)))"

fun isPrefixOf :: "string \<Rightarrow> string \<Rightarrow> bool" where
  "isPrefixOf [] s = True"
| "isPrefixOf (p # ps) [] = False"
| "isPrefixOf (p # ps) (c # cs) = (p = c \<and> isPrefixOf ps cs)"

fun strIncludes :: "string \<Rightarrow> string \<Rightarrow> bool" where
  \<comment> \<open>\<open>s.includes(p)\<close>\<close>
  "strIncludes [] p = (p = [])"
| "strIncludes (c # cs) p = (isPrefixOf p (c # cs) \<or> strIncludes cs p)"


section \<open>Regular expressions\<close>

text \<open>
  The fragment of ECMAScript regular expressions the handlers use: character atoms,
  sequence, alternation, greedy iteration, the assertions \<open>^\<close>, \<open>$\<close> and \<open>\b\<close>. No
  pattern of the program has a back-reference, a look-around or the \<open>m\<close>, \<open>s\<close>, \<open>u\<close> or
  \<open>y\<close> flag.
\<close>

datatype rx =
    Atom "char \<Rightarrow> bool"
  | Eps
  | Seq rx rx
  | Alt rx rx
  | Star rx
  | Bol
  | Eol
  | WordB

text \<open>
  A position in the subject is the unit before it (if any) and the rest of the string.
  \<open>rxm r p\<close> lists the positions where a match of \<open>r\<close> begun at \<open>p\<close> can end, in the
  order in which the backtracking matcher of ECMAScript tries them.
\<close>

type_synonym pos = "char option \<times> string"

definition wordAt :: "char option \<Rightarrow> bool" where
  "wordAt c = (case c of None \<Rightarrow> False | Some d \<Rightarrow> isWordChar d)"

definition nextChar :: "string \<Rightarrow> char option" where
  "nextChar s = (case s of [] \<Rightarrow> None | c # cs \<Rightarrow> Some c)"

primrec starIter :: "nat \<Rightarrow> (pos \<Rightarrow> pos list) \<Rightarrow> pos \<Rightarrow> pos list" where
  \<comment> \<open>greedy iteration: one more round first, then stopping here; a round that consumes
      nothing is rejected (the empty check of RepeatMatcher), so the rounds are bounded
      by the length of the rest\<close>
  "starIter 0 f p = [p]"
| "starIter (Suc n) f p =
     concat (map (\<lambda>q. if length (snd q) < length (snd p) then starIter n f q else []) (f p))
     @ [p]"

primrec rxm :: "rx \<Rightarrow> pos \<Rightarrow> pos list" where
  "rxm (Atom P) = (\<lambda>p. case snd p of [] \<Rightarrow> [] | c # cs \<Rightarrow> if P c then [(Some c, cs)] else [])"
| "rxm Eps = (\<lambda>p. [p])"
| "rxm (Seq a b) = (\<lambda>p. concat (map (rxm b) (rxm a p)))"
| "rxm (Alt a b) = (\<lambda>p. rxm a p @ rxm b p)"
| "rxm (Star a) = (\<lambda>p. starIter (length (snd p)) (rxm a) p)"
| "rxm Bol = (\<lambda>p. if fst p = None then [p] else [])"
| "rxm Eol = (\<lambda>p. if snd p = [] then [p] else [])"
| "rxm WordB = (\<lambda>p. if wordAt (fst p) \<noteq> wordAt (nextChar (snd p)) then [p] else [])"

fun search :: "rx \<Rightarrow> char option \<Rightarrow> string \<Rightarrow> bool" where
  \<comment> \<open>is there a match beginning at this position or at a later one\<close>
  "search r prev [] = (rxm r (prev, []) \<noteq> [])"
| "search r prev (c # cs) = (rxm r (prev, c # cs) \<noteq> [] \<or> search r (Some c) cs)"

definition test :: "rx \<Rightarrow> string \<Rightarrow> bool" where
  \<comment> \<open>\<open>RegExp.prototype.test\<close> of a regular expression without the \<open>g\<close> flag\<close>
  "test r s = search r None s"

subsection \<open>Pattern syntax\<close>

definition lit :: "char \<Rightarrow> rx" where
  "lit c = Atom (\<lambda>d. d = c)"

definition liti :: "char \<Rightarrow> rx" where
  \<comment> \<open>a literal under the \<open>i\<close> flag\<close>
  "liti c = Atom (\<lambda>d. canonicalize d = canonicalize c)"

definition digit :: rx where
  "digit = Atom isDigit"

definition space :: rx where
  "space = Atom isSpace"

definition dot :: rx where
  "dot = Atom (\<lambda>d. \<not> isLineTerminator d)"

definition oneOf :: "string \<Rightarrow> rx" where
  "oneOf cs = Atom (\<lambda>d. d \<in> set cs)"

definition Opt :: "rx \<Rightarrow> rx" where
  \<comment> \<open>\<open>r?\<close>, greedy\<close>
  "Opt r = Alt r Eps"

definition Plus :: "rx \<Rightarrow> rx" where
  \<comment> \<open>\<open>r+\<close>\<close>
  "Plus r = Seq r (Star r)"

primrec seqs :: "rx list \<Rightarrow> rx" where
  "seqs [] = Eps"
| "seqs (r # rs) = Seq r (seqs rs)"

fun alts :: "rx \<Rightarrow> rx list \<Rightarrow> rx" where
  \<comment> \<open>\<open>r|r1|...|rn\<close>\<close>
  "alts r [] = r"
| "alts r (r' # rs) = Alt r (alts r' rs)"

primrec rep :: "nat \<Rightarrow> rx \<Rightarrow> rx" where
  \<comment> \<open>\<open>r{n}\<close>\<close>
  "rep 0 r = Eps"
| "rep (Suc n) r = Seq r (rep n r)"

primrec repUpTo :: "nat \<Rightarrow> rx \<Rightarrow> rx" where
  \<comment> \<open>\<open>r{0,n}\<close>, greedy\<close>
  "repUpTo 0 r = Eps"
| "repUpTo (Suc n) r = Opt (Seq r (repUpTo n r))"

definition repBetween :: "nat \<Rightarrow> nat \<Rightarrow> rx \<Rightarrow> rx" where
  \<comment> \<open>\<open>r{m,n}\<close>\<close>
  "repBetween m n r = Seq (rep m r) (repUpTo (n - m) r)"

definition str :: "string \<Rightarrow> rx" where
  "str s = seqs (map lit s)"

definition stri :: "string \<Rightarrow> rx" where
  "stri s = seqs (map liti s)"

definition never :: rx where
  "never = Atom (\<lambda>d. False)"

definition anyOf :: "rx list \<Rightarrow> rx" where
  \<comment> \<open>\<open>(r1|...|rn)\<close>\<close>
  "anyOf rs = (case rs of [] \<Rightarrow> never | r # rs' \<Rightarrow> alts r rs')"

definition words :: "string list \<Rightarrow> rx" where
  \<comment> \<open>an alternation of literal phrases under the \<open>i\<close> flag\<close>
  "words ws = anyOf (map stri ws)"

definition noneOfi :: "string \<Rightarrow> rx" where
  \<comment> \<open>a negated class \<open>[^...]\<close> under the \<open>i\<close> flag\<close>
  "noneOfi cs = Atom (\<lambda>d. \<not> list_ex (\<lambda>a. canonicalize a = canonicalize d) cs)"

definition apos :: rx where
  \<comment> \<open>\<open>'?\<close> under the \<open>i\<close> flag\<close>
  "apos = Opt (liti (CHR 0x27))"

definition gap :: rx where
  \<comment> \<open>\<open>.*\<close>\<close>
  "gap = Star dot"

definition phrase :: "string list \<Rightarrow> rx" where
  \<comment> \<open>\<open>w1.*w2.* ... .*wn\<close> under the \<open>i\<close> flag\<close>
  "phrase ws = (case ws of [] \<Rightarrow> Eps
     | w # ws' \<Rightarrow> Seq (stri w) (seqs (map (\<lambda>v. Seq gap (stri v)) ws')))"


section \<open>The utterance classifiers (routes/gather.js)\<close>

definition voicemailPatterns :: "rx list" where
  "voicemailPatterns =
    [ phrase [''not available'', ''leave'', ''message''],
      phrase [''can't come to'', ''phone''],
      phrase [''leave'', ''message'', ''after'', ''tone''],
      phrase [''press'', ''for'', ''delivery'', ''options''],
      phrase [''nothing'', ''recorded'', ''hang'', ''up''],
      phrase [''message'', ''after'', ''tone'', ''hang'', ''up''],
      phrase [''simply'', ''hang'', ''up''],
      phrase [''your'', ''message'', ''after'', ''beep''],
      phrase [''please'', ''leave'', ''your'', ''name''],
      phrase [''mailbox'', ''full''],
      phrase [''unavailable'', ''right'', ''now''],
      seqs [Bol, rep 3 digit, Opt (oneOf ''-.''), rep 3 digit, Opt (oneOf ''-.''),
            rep 4 digit, Opt (lit CHR ''.''), Eol],
      seqs [Bol, stri ''you'', apos, stri ''ve reached'', gap],
      seqs [Bol, stri ''this is'', gap, words [''voicemail'', ''message'']],
      seqs [Bol, phrase [''hello'', ''not here'']],
      seqs [Bol, phrase [''sorry'', ''missed'', ''call'']],
      seqs [Bol, rep 3 digit, Star space, rep 3 digit, Opt (lit CHR ''.''), Eol],
      seqs [Bol, repBetween 2 4 digit, Star space, repBetween 2 4 digit, Opt (lit CHR ''.''), Eol],
      seqs [Bol, stri ''at the tone''],
      seqs [Bol, stri ''please record''],
      phrase [''when you have finished recording'', ''hang up''],
      stri ''you may hang up'',
      phrase [''recording'', ''hang up''] ]"

definition isVoicemailMessage :: "string \<Rightarrow> bool" where
  "isVoicemailMessage userInput =
     (let trimmedInput = trim userInput in
      if test (seqs [Bol, rep 3 digit, Star space, rep 3 digit, Opt (lit CHR ''.''), Eol])
           trimmedInput
      then True
      else
        let isShortNumeric = test (seqs [Bol, repBetween 3 10 digit, Opt (lit CHR ''.''), Eol])
                               trimmedInput;
            isJustNumbers = test (seqs [Bol, Plus digit, Star (Alt space (lit CHR ''.'')),
                                        Star digit, Opt (lit CHR ''.''), Eol]) trimmedInput;
            isAutomatedMessage = list_ex (\<lambda>pattern. test pattern (toLowerCase userInput))
                                   voicemailPatterns
        in if isAutomatedMessage \<or> isShortNumeric \<or> isJustNumbers then True else False)"

definition endPhrases :: "rx list" where
  "endPhrases =
    [ seqs [Bol, anyOf
                   [stri ''no'', stri ''nothing else'', seqs [stri ''that'', apos, stri ''s it''],
                    seqs [stri ''i'', apos, stri ''m done''], stri ''all set'',
                    stri ''wrap up'', stri ''finished'', stri ''bye'', stri ''goodbye''],
            Eol],
      seqs [Bol, words [''good'', ''ok'', ''sounds good'', ''alright'', ''perfect''],
            Star space, Opt (words [''bye'', ''goodbye'', ''thanks'']), Eol],
      seqs [Bol, words [''thanks'', ''thank you'', ''appreciate it''],
            Star space, Opt (words [''bye'', ''goodbye'']), Eol],
      words [''end call'', ''hang up'', ''gotta go'', ''have to go''],
      words [''see you tomorrow'', ''talk tomorrow'', ''tomorrow''] ]"

definition isSessionEnding :: "string \<Rightarrow> bool" where
  "isSessionEnding userInput = list_ex (\<lambda>pattern. test pattern (trim userInput)) endPhrases"


section \<open>Data model\<close>

datatype error = Thrown string

record message =
  role :: string
  content :: string

record exchange =
  userText :: string
  agentText :: string
  toolUsed :: "string option"
  toolSuccess :: "bool option"

record habit =
  habitText :: "string option"  \<comment> \<open>\<open>habit.text\<close>; \<open>None\<close> is \<open>undefined\<close>\<close>

record plan =
  habits :: "habit list"

record session =
  state :: string
  sessionType :: string
  conversation :: "exchange list"
  decisions :: "string list"
  todaysPlan :: "plan option"
  dayAnalysis :: "string option"  \<comment> \<open>an opaque payload; present is truthy\<close>
  startedAt :: nat
  endedAt :: "nat option"

record insights =
  date :: string
  priorities :: "string list"
  mood :: string
  energyLevel :: string
  notes' :: string

record llmResponse =
  rtype :: string  \<comment> \<open>\<open>llmResponse.type\<close>\<close>
  action :: string
  task :: "string option"
  title :: "string option"
  time :: "string option"
  originalResponse :: "string option"
  llmContent :: string  \<comment> \<open>\<open>llmResponse.content\<close>\<close>

record toolResult =
  tool :: string
  success :: bool
  resultMessage :: string  \<comment> \<open>\<open>toolResult.message\<close>\<close>
  item :: "string option"

record logRecord =
  logCallSid :: string
  logUserInput :: string
  logAssistantReply :: string
  logToolUsed :: "string option"
  logToolSuccess :: "bool option"
  logSessionState :: string

record request =
  CallSid :: string
  SpeechResult :: "string option"
  CallStatus :: "string option"
  To :: "string option"

datatype verb =
    Say string string  \<comment> \<open>voice, spoken line\<close>
  | Gather "(string \<times> string) list"  \<comment> \<open>keep listening, with these attributes\<close>
  | Hangup

datatype reply =
    Xml "verb list"  \<comment> \<open>\<open>res.type('text/xml').send(response.toString())\<close>\<close>
  | Ack  \<comment> \<open>\<open>res.status(200).send()\<close>: no TwiML\<close>

text \<open>
  The process state the handlers share: the session store and the context store, both
  keyed by call id, and what has been written to the external stores.
\<close>

record world =
  sessions :: "string \<rightharpoonup> session"
  ctx :: "string \<rightharpoonup> message list"
  savedSessions :: "session list"
  logRecords :: "logRecord list"
  missedCalls :: "(string option \<times> string) list"

text \<open>
  The collaborators outside the repository, each a function of what it is given that
  returns or throws, and the process environment.
\<close>

record env =
  NOTION_LOGS_DB_ID :: "string option"
  NOTION_TASKS_DB_ID :: "string option"
  GOOGLE_CALENDAR_ACCESS_TOKEN :: "string option"
  llmReply :: "message list \<Rightarrow> error + string"
  llmReplyWithTools :: "message list \<Rightarrow> error + llmResponse"
  generateConversationalResponse :: "exchange list \<Rightarrow> string \<Rightarrow> error + string"
  addTask :: "string \<Rightarrow> string option \<Rightarrow> error + bool"
  addEvent :: "string option \<Rightarrow> string option \<Rightarrow> error + bool"
  logMissedCall :: "string \<Rightarrow> string option \<Rightarrow> string \<Rightarrow> error + unit"
  insertOne :: "logRecord \<Rightarrow> error + unit"
  saveSession :: "session \<Rightarrow> error + unit"
  now :: nat
  today :: string  \<comment> \<open>\<open>new Date().toISOString().split('T')[0]\<close>\<close>
  randomIndex :: nat  \<comment> \<open>\<open>Math.floor(Math.random() * messages.length)\<close>\<close>

subsection \<open>Effects\<close>

text \<open>
  A computation runs on the world and returns a value or throws; what it wrote before it
  threw stays written.
\<close>

type_synonym 'a io = "world \<Rightarrow> (error + 'a) \<times> world"

definition ret :: "'a \<Rightarrow> 'a io" where
  "ret x = (\<lambda>w. (Inr x, w))"

definition await :: "error + 'a \<Rightarrow> 'a io" where
  \<comment> \<open>the outcome of a call to a collaborator\<close>
  "await r = (\<lambda>w. (r, w))"

definition andThen :: "'a io \<Rightarrow> ('a \<Rightarrow> 'b io) \<Rightarrow> 'b io" where
  "andThen m f = (\<lambda>w. case m w of (Inl e, w') \<Rightarrow> (Inl e, w') | (Inr x, w') \<Rightarrow> f x w')"

definition tryCatch :: "'a io \<Rightarrow> (error \<Rightarrow> 'a io) \<Rightarrow> 'a io" where
  "tryCatch m h = (\<lambda>w. case m w of (Inl e, w') \<Rightarrow> h e w' | (Inr x, w') \<Rightarrow> (Inr x, w'))"

definition update :: "(world \<Rightarrow> world) \<Rightarrow> unit io" where
  "update f = (\<lambda>w. (Inr (), f w))"

definition truthy :: "string option \<Rightarrow> bool" where
  \<comment> \<open>of a value that is a string or \<open>undefined\<close>\<close>
  "truthy v = (case v of None \<Rightarrow> False | Some s \<Rightarrow> s \<noteq> [])"

definition orElse :: "string option \<Rightarrow> string option \<Rightarrow> string option" where
  \<comment> \<open>\<open>a || b\<close>\<close>
  "orElse a b = (if truthy a then a else b)"

definition jsString :: "string option \<Rightarrow> string" where
  \<comment> \<open>a value interpolated into a template literal\<close>
  "jsString v = (case v of None \<Rightarrow> ''undefined'' | Some s \<Rightarrow> s)"

subsection \<open>The session store and the context store\<close>

definition newSession :: "env \<Rightarrow> session" where
  \<comment> \<open>Modelled from the spec: utils/sessionManager.js is not among the sources. A
      session as \<open>get\<close> creates it on first access: type \<open>unknown\<close>, the first state of
      the state machine, nothing recorded.\<close>
  "newSession e = \<lparr> state = ''initializing'', sessionType = ''unknown'', conversation = [],
     decisions = [], todaysPlan = None, dayAnalysis = None, startedAt = now e,
     endedAt = None \<rparr>"

definition getSession :: "env \<Rightarrow> string \<Rightarrow> session io" where
  \<comment> \<open>Modelled from the spec: utils/sessionManager.js is not among the sources.
      \<open>get(id)\<close> creates on first access and never fails.\<close>
  "getSession e callSid = (\<lambda>w. case sessions w callSid of
       Some s \<Rightarrow> (Inr s, w)
     | None \<Rightarrow> (Inr (newSession e), w\<lparr>sessions := (sessions w)(callSid \<mapsto> newSession e)\<rparr>))"

definition onSession :: "string \<Rightarrow> (session \<Rightarrow> session) \<Rightarrow> unit io" where
  \<comment> \<open>a method of the session object held for \<open>callSid\<close>, mutating it in the store\<close>
  "onSession callSid f = update (\<lambda>w. case sessions w callSid of
       None \<Rightarrow> w
     | Some s \<Rightarrow> w\<lparr>sessions := (sessions w)(callSid \<mapsto> f s)\<rparr>)"

definition markAsVoicemail :: "env \<Rightarrow> string \<Rightarrow> unit io" where
  \<comment> \<open>Modelled from the spec: utils/sessionManager.js is not among the sources.
      \<open>markVoicemail\<close> sets \<open>sessionType = voicemail\<close>, \<open>state = voicemail\<close>,
      \<open>endedAt = now\<close>.\<close>
  "markAsVoicemail e callSid = onSession callSid
     (\<lambda>s. s\<lparr>sessionType := ''voicemail'', state := ''voicemail'', endedAt := Some (now e)\<rparr>)"

definition setState :: "string \<Rightarrow> string \<Rightarrow> unit io" where
  \<comment> \<open>Modelled from the spec: utils/sessionManager.js is not among the sources.\<close>
  "setState callSid newState = onSession callSid (\<lambda>s. s\<lparr>state := newState\<rparr>)"

definition setSessionType :: "string \<Rightarrow> string \<Rightarrow> unit io" where
  \<comment> \<open>the assignment \<open>session.sessionData.sessionType = t\<close>\<close>
  "setSessionType callSid t = onSession callSid (\<lambda>s. s\<lparr>sessionType := t\<rparr>)"

definition addExchange :: "string \<Rightarrow> exchange \<Rightarrow> unit io" where
  \<comment> \<open>Modelled from the spec: utils/sessionManager.js is not among the sources.
      \<open>recordExchange\<close> appends to the exchanges.\<close>
  "addExchange callSid x = onSession callSid (\<lambda>s. s\<lparr>conversation := conversation s @ [x]\<rparr>)"

definition addDecision :: "string \<Rightarrow> string \<Rightarrow> unit io" where
  \<comment> \<open>Modelled from the spec: utils/sessionManager.js is not among the sources.
      \<open>recordDecision\<close> appends to the decisions.\<close>
  "addDecision callSid d = onSession callSid (\<lambda>s. s\<lparr>decisions := decisions s @ [d]\<rparr>)"

definition finalSnapshot :: "env \<Rightarrow> session \<Rightarrow> session" where
  \<comment> \<open>Modelled from the spec: utils/sessionManager.js is not among the sources.
      \<open>end\<close> sets \<open>state = ended\<close> if not already terminal and \<open>endedAt\<close> if unset.\<close>
  "finalSnapshot e s =
     s\<lparr> state := (if state s = ''ended'' \<or> state s = ''voicemail'' then state s else ''ended''),
        endedAt := (case endedAt s of None \<Rightarrow> Some (now e) | Some t \<Rightarrow> Some t) \<rparr>"

definition endSession :: "env \<Rightarrow> string \<Rightarrow> session option io" where
  \<comment> \<open>Modelled from the spec: utils/sessionManager.js is not among the sources.
      \<open>end(id)\<close> finalizes the session, saves it, returns the final snapshot, then
      removes the entry; for an id with no live session it does nothing. A failure of
      the store it saves to is thrown, the entry still in place.\<close>
  "endSession e callSid = (\<lambda>w. case sessions w callSid of
       None \<Rightarrow> (Inr None, w)
     | Some s \<Rightarrow>
         (case saveSession e (finalSnapshot e s) of
            Inl err \<Rightarrow> (Inl err, w\<lparr>sessions := (sessions w)(callSid \<mapsto> finalSnapshot e s)\<rparr>)
          | Inr u \<Rightarrow> (Inr (Some (finalSnapshot e s)),
                      w\<lparr>sessions := (sessions w)(callSid := None),
                        savedSessions := savedSessions w @ [finalSnapshot e s]\<rparr>)))"

definition ctxGet :: "string \<Rightarrow> message list option io" where
  \<comment> \<open>Modelled from the spec: memory/context.js is not among the sources.
      \<open>ctx.get\<close>: the message list of the call, if any.\<close>
  "ctxGet callSid = (\<lambda>w. (Inr (ctx w callSid), w))"

definition ctxSet :: "string \<Rightarrow> message list \<Rightarrow> unit io" where
  \<comment> \<open>Modelled from the spec: memory/context.js is not among the sources.\<close>
  "ctxSet callSid h = update (\<lambda>w. w\<lparr>ctx := (ctx w)(callSid \<mapsto> h)\<rparr>)"

definition ctxClear :: "string \<Rightarrow> unit io" where
  \<comment> \<open>Modelled from the spec: memory/context.js is not among the sources.\<close>
  "ctxClear callSid = update (\<lambda>w. w\<lparr>ctx := (ctx w)(callSid := None)\<rparr>)"


section \<open>String helpers of the insight extractor\<close>

fun splitOn :: "char \<Rightarrow> string \<Rightarrow> string list" where
  \<comment> \<open>\<open>s.split(sep)\<close> for a separator of one unit\<close>
  "splitOn sep [] = [[]]"
| "splitOn sep (c # cs) =
     (if c = sep then [] # splitOn sep cs
      else (case splitOn sep cs of [] \<Rightarrow> [[c]] | w # ws \<Rightarrow> (c # w) # ws))"

fun join :: "string \<Rightarrow> string list \<Rightarrow> string" where
  \<comment> \<open>\<open>xs.join(sep)\<close>\<close>
  "join sep [] = []"
| "join sep [x] = x"
| "join sep (x # y # ys) = x @ sep @ join sep (y # ys)"

fun dedup :: "string list \<Rightarrow> string list" where
  \<comment> \<open>\<open>[...new Set(xs)]\<close>: the first occurrence of each element, in order\<close>
  "dedup [] = []"
| "dedup (x # xs) = x # dedup (filter (\<lambda>y. y \<noteq> x) xs)"

fun showNat :: "nat \<Rightarrow> string" where
  \<comment> \<open>a non-negative integer in a template literal\<close>
  "showNat n = (if n < 10 then [''0123456789'' ! n]
                else showNat (n div 10) @ [''0123456789'' ! (n mod 10)])"

fun matchFrom :: "rx \<Rightarrow> char option \<Rightarrow> string \<Rightarrow> string option" where
  \<comment> \<open>the text of the first match at this position or a later one\<close>
  "matchFrom r prev [] = (case rxm r (prev, []) of [] \<Rightarrow> None | q # qs \<Rightarrow> Some [])"
| "matchFrom r prev (c # cs) =
     (case rxm r (prev, c # cs) of
        [] \<Rightarrow> matchFrom r (Some c) cs
      | q # qs \<Rightarrow> Some (take (length (c # cs) - length (snd q)) (c # cs)))"

definition matchFirst :: "rx \<Rightarrow> string \<Rightarrow> string option" where
  \<comment> \<open>\<open>s.match(r)[0]\<close> for \<open>r\<close> without the \<open>g\<close> flag; \<open>None\<close> is \<open>null\<close>\<close>
  "matchFirst r s = matchFrom r None s"

fun matchAllFrom :: "rx \<Rightarrow> nat \<Rightarrow> char option \<Rightarrow> string \<Rightarrow> string list" where
  \<comment> \<open>the loop of \<open>s.match(r)\<close> for \<open>r\<close> with the \<open>g\<close> flag: \<open>k\<close> units of the
      previous match are still to be passed before the next search begins; after an
      empty match the search moves on by one unit\<close>
  "matchAllFrom r k prev [] =
     (if k = 0 then (case rxm r (prev, []) of [] \<Rightarrow> [] | q # qs \<Rightarrow> [[]]) else [])"
| "matchAllFrom r k prev (c # cs) =
     (if 0 < k then matchAllFrom r (k - 1) (Some c) cs
      else (case rxm r (prev, c # cs) of
              [] \<Rightarrow> matchAllFrom r 0 (Some c) cs
            | q # qs \<Rightarrow>
                (let n = length (c # cs) - length (snd q)
                 in take n (c # cs) # matchAllFrom r (n - 1) (Some c) cs)))"

definition matchAll :: "rx \<Rightarrow> string \<Rightarrow> string list" where
  \<comment> \<open>\<open>s.match(r)\<close> for \<open>r\<close> with the \<open>g\<close> flag; the empty list is \<open>null\<close>\<close>
  "matchAll r s = matchAllFrom r 0 None s"


section \<open>The insight extractor (routes/gather.js)\<close>

definition timePattern :: rx where
  \<comment> \<open>\<open>/\b(\d+)\s*(minutes?|mins?|hours?|hrs?)\b/i\<close>\<close>
  "timePattern = seqs [WordB, Plus digit, Star space,
     anyOf [Seq (stri ''minute'') (Opt (liti CHR ''s'')), Seq (stri ''min'') (Opt (liti CHR ''s'')),
            Seq (stri ''hour'') (Opt (liti CHR ''s'')), Seq (stri ''hr'') (Opt (liti CHR ''s''))],
     WordB]"

definition actionPattern :: rx where
  \<comment> \<open>\<open>/\b(start|begin|do|work on|focus on)\s+([^.!?]*)/gi\<close>\<close>
  "actionPattern = seqs [WordB, words [''start'', ''begin'', ''do'', ''work on'', ''focus on''],
     Plus space, Star (noneOfi ''.!?'')]"

fun habitMentions :: "habit list \<Rightarrow> string \<Rightarrow> error + string list" where
  \<comment> \<open>the inner \<open>forEach\<close> over the habits; \<open>habit.text.toLowerCase()\<close> throws a
      TypeError on a habit with no text\<close>
  "habitMentions [] msg = Inr []"
| "habitMentions (h # hs) msg =
     (case habitText h of
        None \<Rightarrow> Inl (Thrown ''TypeError'')
      | Some t \<Rightarrow>
          (case habitMentions hs msg of
             Inl e \<Rightarrow> Inl e
           | Inr ms \<Rightarrow>
               Inr ((if strIncludes (toLowerCase msg)
                           (case splitOn CHR '' '' (toLowerCase t) of [] \<Rightarrow> [] | w # ws \<Rightarrow> w)
                     then [t] else []) @ ms)))"

definition messageMentions :: "session \<Rightarrow> string \<Rightarrow> error + string list" where
  \<comment> \<open>what one user message adds to \<open>taskMentions\<close>\<close>
  "messageMentions sess msg =
     (case (case todaysPlan sess of None \<Rightarrow> Inr [] | Some p \<Rightarrow> habitMentions (habits p) msg) of
        Inl e \<Rightarrow> Inl e
      | Inr hm \<Rightarrow>
          Inr (hm
               @ (if test timePattern msg
                  then (case matchFirst timePattern msg of
                          None \<Rightarrow> [] | Some timeMatch \<Rightarrow> [timeMatch @ '' commitment made''])
                  else [])
               @ map trim (matchAll actionPattern msg)))"

fun allMentions :: "session \<Rightarrow> string list \<Rightarrow> error + string list" where
  \<comment> \<open>the outer \<open>forEach\<close> over the user messages\<close>
  "allMentions sess [] = Inr []"
| "allMentions sess (msg # msgs) =
     (case messageMentions sess msg of
        Inl e \<Rightarrow> Inl e
      | Inr ms \<Rightarrow> (case allMentions sess msgs of Inl e \<Rightarrow> Inl e | Inr rest \<Rightarrow> Inr (ms @ rest)))"

definition positiveWords :: rx where
  "positiveWords = anyOf (map str [''good'', ''great'', ''excellent'', ''awesome'', ''ready'',
     ''excited'', ''energized'', ''yes'', ''absolutely'', ''perfect''])"

definition negativeWords :: rx where
  "negativeWords = anyOf (map str [''tired'', ''slow'', ''difficult'', ''hard'', ''struggle'',
     ''overwhelmed'', ''no'', ''maybe'', ''unsure''])"

definition neutralWords :: rx where
  "neutralWords = anyOf (map str [''ok'', ''fine'', ''decent'', ''normal'', ''alright'', ''sure''])"

definition focusWords :: rx where
  "focusWords = anyOf (map str [''focused'', ''concentrate'', ''priority'', ''important'',
     ''urgent''])"

definition extractSessionInsights :: "env \<Rightarrow> message list \<Rightarrow> session \<Rightarrow> error + insights" where
  "extractSessionInsights e conversationHistory sess =
     (let userMessages = map content (filter (\<lambda>msg. role msg = ''user'') conversationHistory)
      in case allMentions sess userMessages of
           Inl err \<Rightarrow> Inl err
         | Inr taskMentions \<Rightarrow>
            (let prios = take 3 (dedup taskMentions);
                 combinedText = toLowerCase (join '' '' userMessages);
                 tone = (if test positiveWords combinedText then (''Positive'', ''High'')
                         else if test negativeWords combinedText then (''Low'', ''Low'')
                         else if test neutralWords combinedText then (''Neutral'', ''Medium'')
                         else if test focusWords combinedText then (''Focused'', ''High'')
                         else (''Neutral'', ''Medium''));
                 commitments = decisions sess;
                 keyPoints =
                   (if 0 < length commitments
                    then [''Made '' @ showNat (length commitments) @ '' commitments''] else [])
                   @ (case prios of [] \<Rightarrow> [] | first # rest \<Rightarrow> [''Focus: '' @ first])
                   @ (if 3 < length userMessages then [''Extended conversation'']
                      else if 1 < length userMessages then [''Brief interaction''] else [])
             in Inr \<lparr> date = today e, priorities = prios, mood = fst tone,
                      energyLevel = snd tone,
                      notes' = (if join ''. '' keyPoints = [] then ''Quick check-in completed''
                                else join ''. '' keyPoints) \<rparr>))"

definition endingMessages :: "string list" where
  "endingMessages =
    [ ''Good session. Execute those plans.'',
      ''Solid check-in. Make it happen.'',
      ''Plans set. Time to work.'',
      ''Clear priorities. Go execute.'',
      ''Session logged. Get after it.'' ]"

definition getEndingMessage :: "env \<Rightarrow> insights \<Rightarrow> string" where
  "getEndingMessage e ins =
     (case priorities ins of
        priority # rest \<Rightarrow>
          (let shortPriority =
                 (if 30 < length priority
                  then join '' '' (butlast (splitOn CHR '' '' (take 30 priority)))
                  else priority)
           in shortPriority @ '' locked in. Execute.'')
      | [] \<Rightarrow> endingMessages ! (randomIndex e mod length endingMessages))"


section \<open>The turn processor (routes/gather.js)\<close>

definition voice :: string where
  "voice = ''Google.en-US-Neural2-I''"

definition xmlLegalChar :: "char \<Rightarrow> bool" where
  \<comment> \<open>a unit that XML 1.0 allows in text: no control character but TAB, LF and CR\<close>
  "xmlLegalChar c =
     (c \<notin> set [CHR 0x00, CHR 0x01, CHR 0x02, CHR 0x03, CHR 0x04, CHR 0x05, CHR 0x06, CHR 0x07,
                 CHR 0x08, CHR 0x0B, CHR 0x0C, CHR 0x0E, CHR 0x0F, CHR 0x10, CHR 0x11, CHR 0x12,
                 CHR 0x13, CHR 0x14, CHR 0x15, CHR 0x16, CHR 0x17, CHR 0x18, CHR 0x19, CHR 0x1A,
                 CHR 0x1B, CHR 0x1C, CHR 0x1D, CHR 0x1E, CHR 0x1F])"

definition say :: "string \<Rightarrow> verb io" where
  \<comment> \<open>\<open>response.say({ voice: ... }, line)\<close>. The twilio library is outside the
      repository: its XML builder refuses a text with a unit that XML does not allow and
      throws, the verb not added to the response.\<close>
  "say line = (if list_all xmlLegalChar line then ret (Say voice line)
               else await (Inl (Thrown ''Invalid character in string'')))"

definition needsToolsPattern :: rx where
  \<comment> \<open>\<open>/\b(add|create|schedule|remind|put.*calendar|todo)\b/i\<close>\<close>
  "needsToolsPattern = seqs [WordB,
     anyOf [stri ''add'', stri ''create'', stri ''schedule'', stri ''remind'',
            seqs [stri ''put'', gap, stri ''calendar''], stri ''todo''],
     WordB]"

definition commitmentPattern :: rx where
  \<comment> \<open>\<open>/\b(will|going to|plan to|commit|promise)\b/i\<close>\<close>
  "commitmentPattern = seqs [WordB,
     words [''will'', ''going to'', ''plan to'', ''commit'', ''promise''], WordB]"

definition executeToolCall :: "env \<Rightarrow> llmResponse \<Rightarrow> toolResult" where
  \<comment> \<open>whatever a collaborator throws is caught inside and becomes a failed result\<close>
  "executeToolCall e toolCall =
     (let caught = \<lparr> tool = action toolCall, success = False,
                      resultMessage = ''Something went wrong.'', item = None \<rparr>
      in if action toolCall = ''add_task'' then
           (case NOTION_TASKS_DB_ID e of
              None \<Rightarrow> \<lparr> tool = ''add_task'', success = False,
                        resultMessage = ''Tasks not configured.'', item = None \<rparr>
            | Some db \<Rightarrow>
                if db = [] then \<lparr> tool = ''add_task'', success = False,
                                  resultMessage = ''Tasks not configured.'', item = None \<rparr>
                else (case addTask e db (task toolCall) of
                        Inl err \<Rightarrow> caught
                      | Inr result \<Rightarrow>
                          \<lparr> tool = ''add_task'', success = result,
                            resultMessage = (if result then ''Added to your tasks.''
                                             else ''Task creation failed.''),
                            item = task toolCall \<rparr>))
         else if action toolCall = ''add_event'' then
           (if truthy (GOOGLE_CALENDAR_ACCESS_TOKEN e) then
              (case addEvent e (title toolCall) (time toolCall) of
                 Inl err \<Rightarrow> caught
               | Inr result \<Rightarrow>
                   \<lparr> tool = ''add_event'', success = result,
                     resultMessage = (if result then ''Added to your calendar.''
                                      else ''Calendar event failed.''),
                     item = Some (jsString (title toolCall) @ '' at ''
                                  @ jsString (time toolCall)) \<rparr>)
            else \<lparr> tool = ''add_event'', success = False,
                   resultMessage = ''Calendar not configured.'', item = None \<rparr>)
         else \<lparr> tool = ''unknown'', success = False, resultMessage = ''Unknown action.'',
                item = None \<rparr>)"

definition handleSessionEndBody :: "env \<Rightarrow> string \<Rightarrow> string \<Rightarrow> reply io" where
  \<comment> \<open>the \<open>try\<close> block of \<open>handleSessionEnd\<close>\<close>
  "handleSessionEndBody e callSid userInput =
     andThen (getSession e callSid) (\<lambda>sess.
     andThen (ctxGet callSid) (\<lambda>stored.
     andThen (await (extractSessionInsights e (case stored of None \<Rightarrow> [] | Some h \<Rightarrow> h) sess))
       (\<lambda>sessionInsights.
     andThen (setState callSid ''ending'') (\<lambda>u1.
     andThen (endSession e callSid) (\<lambda>sessionData.
     andThen (ctxClear callSid) (\<lambda>u2.
     andThen (say (getEndingMessage e sessionInsights)) (\<lambda>spoken.
     ret (Xml [spoken, Hangup]))))))))"

definition handleSessionEnd :: "env \<Rightarrow> string \<Rightarrow> string \<Rightarrow> reply io" where
  "handleSessionEnd e callSid userInput =
     tryCatch (handleSessionEndBody e callSid userInput)
       (\<lambda>err. andThen (say ''Session complete. Talk tomorrow!'') (\<lambda>spoken.
              ret (Xml [spoken, Hangup])))"

definition toolTurn :: "env \<Rightarrow> string \<Rightarrow> message list \<Rightarrow> (string \<times> toolResult option) io" where
  \<comment> \<open>the branch \<open>if (needsTools)\<close>: the reply and the tool result, if a tool ran\<close>
  "toolTurn e callSid history =
     andThen (await (llmReplyWithTools e history)) (\<lambda>llmResponse.
       if rtype llmResponse = ''tool_call'' then
         (let result = executeToolCall e llmResponse;
              assistantReply =
                jsString (orElse (originalResponse llmResponse)
                   (Some (if success result then ''Got it. '' @ resultMessage result
                          else ''Couldn't add that. '' @ resultMessage result)))
          in andThen
               (if success result
                then addDecision callSid
                       (''Added: '' @ jsString (orElse (orElse (item result) (task llmResponse))
                                                  (title llmResponse)))
                else ret ())
               (\<lambda>u. ret (assistantReply, Some result)))
       else ret (llmContent llmResponse, None))"

definition plainTurn :: "env \<Rightarrow> session \<Rightarrow> message list \<Rightarrow> (string \<times> toolResult option) io" where
  \<comment> \<open>the branch without tools: the contextual reply when the session has a day
      analysis, the basic reply when it has none or the contextual one throws\<close>
  "plainTurn e sess history =
     andThen
       (case dayAnalysis sess of
          Some analysis \<Rightarrow>
            tryCatch (await (generateConversationalResponse e (conversation sess) analysis))
              (\<lambda>err. await (llmReply e history))
        | None \<Rightarrow> await (llmReply e history))
       (\<lambda>assistantReply. ret (assistantReply, None))"

definition gatherTurn :: "env \<Rightarrow> string \<Rightarrow> string \<Rightarrow> reply io" where
  \<comment> \<open>the \<open>try\<close> block of \<open>handleGather\<close>: a normal turn\<close>
  "gatherTurn e callSid userInput =
     andThen (getSession e callSid) (\<lambda>sess.
     andThen (ctxGet callSid) (\<lambda>stored.
     andThen (if sessionType sess = ''unknown'' then setSessionType callSid ''conversation''
              else ret ()) (\<lambda>u1.
     let history = (case stored of None \<Rightarrow> [] | Some h \<Rightarrow> h)
                   @ [\<lparr> role = ''user'', content = userInput \<rparr>]
     in
     andThen (if test needsToolsPattern userInput then toolTurn e callSid history
              else plainTurn e sess history) (\<lambda>(assistantReply, result).
     andThen (ctxSet callSid (history @ [\<lparr> role = ''assistant'', content = assistantReply \<rparr>]))
       (\<lambda>u2.
     andThen (addExchange callSid
                \<lparr> userText = userInput, agentText = assistantReply,
                  toolUsed = map_option tool result,
                  toolSuccess = map_option success result \<rparr>) (\<lambda>u3.
     andThen (if test commitmentPattern userInput
              then addDecision callSid (''User commitment: '' @ userInput) else ret ()) (\<lambda>u4.
     andThen (getSession e callSid) (\<lambda>current.
     andThen (await (insertOne e
                \<lparr> logCallSid = callSid, logUserInput = userInput,
                  logAssistantReply = assistantReply,
                  logToolUsed = map_option tool result,
                  logToolSuccess = map_option success result,
                  logSessionState = state current \<rparr>)) (\<lambda>u5.
     andThen (update (\<lambda>w. w\<lparr>logRecords := logRecords w @
                [\<lparr> logCallSid = callSid, logUserInput = userInput,
                   logAssistantReply = assistantReply,
                   logToolUsed = map_option tool result,
                   logToolSuccess = map_option success result,
                   logSessionState = state current \<rparr>]\<rparr>)) (\<lambda>u6.
     andThen (say assistantReply) (\<lambda>spoken.
     ret (Xml [spoken,
               Gather [(''input'', ''speech''), (''action'', ''/gather''),
                       (''speechTimeout'', ''auto''), (''timeout'', ''8''),
                       (''finishOnKey'', ''#'')]]))))))))))))"

definition handleGather :: "env \<Rightarrow> request \<Rightarrow> reply io" where
  "handleGather e req =
     (let callSid = CallSid req;
          userInput = trim (jsString (orElse (SpeechResult req) (Some [])))
      in
      if isVoicemailMessage userInput then
        andThen (getSession e callSid) (\<lambda>sess.
        andThen (markAsVoicemail e callSid) (\<lambda>u1.
        andThen (if truthy (NOTION_LOGS_DB_ID e)
                 then andThen (await (logMissedCall e (jsString (NOTION_LOGS_DB_ID e)) (To req)
                                        ''voicemail-answered''))
                        (\<lambda>u. update (\<lambda>w. w\<lparr>missedCalls := missedCalls w
                                               @ [(To req, ''voicemail-answered'')]\<rparr>))
                 else ret ()) (\<lambda>u2.
        andThen (endSession e callSid) (\<lambda>ended.
        andThen (ctxClear callSid) (\<lambda>u3.
        andThen (say ''Voicemail detected. Call back when you can actually talk.'') (\<lambda>spoken.
        ret (Xml [spoken, Hangup])))))))
      else if isSessionEnding userInput then handleSessionEnd e callSid userInput
      else if CallStatus req = Some ''completed'' \<or> CallStatus req = Some ''no-answer'' then
        andThen (endSession e callSid) (\<lambda>ended. ret Ack)
      else
        tryCatch (gatherTurn e callSid userInput)
          (\<lambda>err. andThen (say ''Let's stay focused. What's your main priority?'') (\<lambda>spoken.
                 ret (Xml [spoken,
                           Gather [(''input'', ''speech''), (''action'', ''/gather''),
                                   (''speechTimeout'', ''auto'')]]))))"


section \<open>The call lifecycle handler (routes/voice.js)\<close>

definition handleVoice :: "env \<Rightarrow> request \<Rightarrow> reply option io" where
  \<comment> \<open>the cleanup of \<open>handleVoice\<close> on a terminal call status; on any other status the
      handler goes on to open the session, which is outside this development: \<open>None\<close>\<close>
  "handleVoice e req =
     (if CallStatus req = Some ''completed'' \<or> CallStatus req = Some ''no-answer''
         \<or> CallStatus req = Some ''failed''
      then andThen (endSession e (CallSid req)) (\<lambda>ended.
           andThen (ctxClear (CallSid req)) (\<lambda>u. ret (Some Ack)))
      else ret None)"


section \<open>The mood classification as specified\<close>




section \<open>A call in progress, for the examples\<close>

definition calmEnv :: env where
  \<comment> \<open>an environment in which every collaborator answers\<close>
  "calmEnv = \<lparr> NOTION_LOGS_DB_ID = Some ''logs-db'', NOTION_TASKS_DB_ID = Some ''tasks-db'',
     GOOGLE_CALENDAR_ACCESS_TOKEN = None,
     llmReply = (\<lambda>h. Inr ''Pick one and start.''),
     llmReplyWithTools = (\<lambda>h. Inr \<lparr> rtype = ''tool_call'', action = ''add_task'',
        task = Some ''call the dentist'', title = None, time = None,
        originalResponse = None, llmContent = [] \<rparr>),
     generateConversationalResponse = (\<lambda>c a. Inr ''Pick one and start.''),
     addTask = (\<lambda>db t. Inr True),
     addEvent = (\<lambda>t tm. Inr True),
     logMissedCall = (\<lambda>db callee reason. Inr ()),
     insertOne = (\<lambda>r. Inr ()),
     saveSession = (\<lambda>s. Inr ()),
     now = 0, today = ''2025-01-06'', randomIndex = 0 \<rparr>"

definition openWorld :: world where
  \<comment> \<open>the stores after the call \<open>CA1\<close> has been opened\<close>
  "openWorld = \<lparr>
     sessions = [''CA1'' \<mapsto> \<lparr> state = ''overview'', sessionType = ''unknown'',
        conversation = [\<lparr> userText = ''SESSION_START'', agentText = ''Morning. What is first?'',
                          toolUsed = None, toolSuccess = None \<rparr>],
        decisions = [], todaysPlan = Some \<lparr> habits = [] \<rparr>, dayAnalysis = None,
        startedAt = 0, endedAt = None \<rparr>],
     ctx = [''CA1'' \<mapsto> [\<lparr> role = ''system'', content = ''You are a morning coach.'' \<rparr>,
                        \<lparr> role = ''assistant'', content = ''Morning. What is first?'' \<rparr>]],
     savedSessions = [], logRecords = [], missedCalls = [] \<rparr>"

definition utterance :: "string \<Rightarrow> request" where
  \<comment> \<open>the caller of \<open>CA1\<close> says \<open>s\<close>\<close>
  "utterance s = \<lparr> CallSid = ''CA1'', SpeechResult = Some s,
     CallStatus = Some ''in-progress'', To = Some ''+15550100'' \<rparr>"

definition statusEvent :: "string \<Rightarrow> request" where
  \<comment> \<open>a call-status notification for \<open>CA1\<close>, with no speech\<close>
  "statusEvent st = \<lparr> CallSid = ''CA1'', SpeechResult = None,
     CallStatus = Some st, To = Some ''+15550100'' \<rparr>"


section \<open>Reasoning about matches\<close>

text \<open>
  Notions used only in proofs. \<open>lastOpt prev s\<close> is the unit before the position reached
  by passing over \<open>s\<close>; \<open>consumes r t\<close> says that \<open>r\<close> can match exactly \<open>t\<close> wherever
  \<open>t\<close> stands; \<open>accepts r p\<close> says that \<open>r\<close> has a match beginning at \<open>p\<close>;
  \<open>hasWord w s\<close> says that \<open>s\<close> holds \<open>w\<close>, up to case, in a place that \<open>trim\<close> keeps.
\<close>

definition lastOpt :: "char option \<Rightarrow> string \<Rightarrow> char option" where
  "lastOpt prev s = (if s = [] then prev else Some (last s))"

definition consumes :: "rx \<Rightarrow> string \<Rightarrow> bool" where
  "consumes r t = (\<forall>prev rest. (lastOpt prev t, rest) \<in> set (rxm r (prev, t @ rest)))"

definition accepts :: "rx \<Rightarrow> pos \<Rightarrow> bool" where
  "accepts r p = (rxm r p \<noteq> [])"

definition hasWord :: "string \<Rightarrow> string \<Rightarrow> bool" where
  "hasWord w s = (\<exists>pre t post. s = pre @ t @ post \<and> consumes (stri w) t \<and> t \<noteq> []
                    \<and> \<not> isSpace (hd t) \<and> \<not> isSpace (last t))"


section \<open>Evaluating the case mappings\<close>

lemma canonicalize_bits [code]:
  "canonicalize (Char b0 b1 b2 b3 b4 b5 b6 b7) =
     (if b5 \<and> b6 \<and> (if b7 then \<not> (b0 \<and> b1 \<and> b2 \<and> b4)
                       else (b0 \<or> b1 \<or> b2 \<or> b3 \<or> b4) \<and> \<not> (b4 \<and> b3 \<and> (b2 \<or> (b1 \<and> b0))))
      then Char b0 b1 b2 b3 b4 False b6 b7 else Char b0 b1 b2 b3 b4 b5 b6 b7)"
  by (cases b0; cases b1; cases b2; cases b3; cases b4; cases b5; cases b6; cases b7;
      simp add: canonicalize_def char_of_eq_iff)

lemma toLowerChar_bits [code]:
  "toLowerChar (Char b0 b1 b2 b3 b4 b5 b6 b7) =
     (if \<not> b5 \<and> b6 \<and> (if b7 then \<not> (b0 \<and> b1 \<and> b2 \<and> b4)
                       else (b0 \<or> b1 \<or> b2 \<or> b3 \<or> b4) \<and> \<not> (b4 \<and> b3 \<and> (b2 \<or> (b1 \<and> b0))))
      then Char b0 b1 b2 b3 b4 True b6 b7 else Char b0 b1 b2 b3 b4 b5 b6 b7)"
  by (cases b0; cases b1; cases b2; cases b3; cases b4; cases b5; cases b6; cases b7;
      simp add: toLowerChar_def char_of_eq_iff)

lemma lower_fold: "toLowerChar d = toLowerChar c \<Longrightarrow> canonicalize d = canonicalize c"
  by (cases d; cases c; simp add: toLowerChar_bits canonicalize_bits split: if_splits; blast)


section \<open>Matches of composite patterns\<close>

lemma rxm_SeqI: "q \<in> set (rxm a p) \<Longrightarrow> r \<in> set (rxm b q) \<Longrightarrow> r \<in> set (rxm (Seq a b) p)"
  by auto

lemma starIter_refl: "p \<in> set (starIter n f p)"
  by (cases n) simp_all

lemma starIter_mono: "r \<in> set (starIter n f q) \<Longrightarrow> n \<le> m \<Longrightarrow> r \<in> set (starIter m f q)"
proof (induction n arbitrary: m q)
  case 0
  then show ?case by (simp add: starIter_refl)
next
  case (Suc n)
  then obtain m' where m: "m = Suc m'" and le: "n \<le> m'" by (cases m) auto
  from Suc.prems(1) show ?case
    unfolding m using Suc.IH [OF _ le] by (auto split: if_splits)
qed

lemma rxm_Star_skip: "p \<in> set (rxm (Star a) p)"
  by (simp add: starIter_refl)

lemma rxm_Star_step:
  assumes "q \<in> set (rxm a p)" and "length (snd q) < length (snd p)"
    and "r \<in> set (rxm (Star a) q)"
  shows "r \<in> set (rxm (Star a) p)"
proof -
  obtain n where n: "length (snd p) = Suc n" using assms(2) by (cases "length (snd p)") auto
  with assms(2) have "length (snd q) \<le> n" by simp
  with assms(3) have "r \<in> set (starIter n (rxm a) q)" by (simp add: starIter_mono)
  with assms(1,2) show ?thesis by (auto simp: n)
qed

lemma search_append: "rxm r (lastOpt prev pre, post) \<noteq> [] \<Longrightarrow> search r prev (pre @ post)"
proof (induction pre arbitrary: prev)
  case Nil
  then show ?case by (cases post) (simp_all add: lastOpt_def)
next
  case (Cons c pre)
  have "lastOpt (Some c) pre = lastOpt prev (c # pre)" by (simp add: lastOpt_def)
  with Cons.prems have "search r (Some c) (pre @ post)" by (intro Cons.IH) simp
  then show ?case by simp
qed

lemma lastOpt_Cons: "lastOpt (Some c) cs = lastOpt prev (c # cs)"
  by (simp add: lastOpt_def)

lemma rxm_rep_digits:
  "list_all isDigit ds \<Longrightarrow> (lastOpt prev ds, rest) \<in> set (rxm (rep (length ds) digit) (prev, ds @ rest))"
proof (induction ds arbitrary: prev)
  case Nil
  then show ?case by (simp add: lastOpt_def)
next
  case (Cons d ds)
  then have "(lastOpt (Some d) ds, rest) \<in> set (rxm (rep (length ds) digit) (Some d, ds @ rest))"
    by simp
  then show ?case using Cons.prems by (simp add: digit_def lastOpt_Cons [of d ds prev])
qed

lemma rxm_Star_digits:
  "list_all isDigit ds \<Longrightarrow> (lastOpt prev ds, rest) \<in> set (rxm (Star digit) (prev, ds @ rest))"
proof (induction ds arbitrary: prev)
  case Nil
  then show ?case using rxm_Star_skip [of "(prev, rest)" digit] by (simp add: lastOpt_def)
next
  case (Cons d ds)
  then have step: "(lastOpt (Some d) ds, rest) \<in> set (rxm (Star digit) (Some d, ds @ rest))"
    by simp
  have "(Some d, ds @ rest) \<in> set (rxm digit (prev, (d # ds) @ rest))"
    using Cons.prems by (simp add: digit_def)
  from rxm_Star_step [OF this _ step] show ?case
    by (simp add: lastOpt_Cons [of d ds prev])
qed

lemma rxm_stri:
  "list_all2 (\<lambda>d c. canonicalize d = canonicalize c) t w \<Longrightarrow>
   (lastOpt prev t, rest) \<in> set (rxm (stri w) (prev, t @ rest))"
proof (induction t w arbitrary: prev rule: list_all2_induct)
  case Nil
  then show ?case by (simp add: stri_def lastOpt_def)
next
  case (Cons d t c w)
  have "(lastOpt (Some d) t, rest) \<in> set (rxm (stri w) (Some d, t @ rest))" by (rule Cons.IH)
  then show ?case using Cons.hyps(1)
    by (simp add: stri_def liti_def lastOpt_Cons [of d t prev])
qed

lemma lastOpt_append: "lastOpt (lastOpt prev s) t = lastOpt prev (s @ t)"
  by (simp add: lastOpt_def)

lemma consumes_Seq: "consumes a s \<Longrightarrow> consumes b t \<Longrightarrow> consumes (Seq a b) (s @ t)"
  unfolding consumes_def
proof (intro allI)
  fix prev rest
  assume a: "\<forall>prev rest. (lastOpt prev s, rest) \<in> set (rxm a (prev, s @ rest))"
    and b: "\<forall>prev rest. (lastOpt prev t, rest) \<in> set (rxm b (prev, t @ rest))"
  from a have 1: "(lastOpt prev s, t @ rest) \<in> set (rxm a (prev, s @ t @ rest))" by blast
  from b have 2: "(lastOpt (lastOpt prev s) t, rest) \<in> set (rxm b (lastOpt prev s, t @ rest))"
    by blast
  from rxm_SeqI [OF 1 2] show "(lastOpt prev (s @ t), rest) \<in> set (rxm (Seq a b) (prev, (s @ t) @ rest))"
    by (simp add: lastOpt_append)
qed

lemma consumes_Alt1: "consumes a t \<Longrightarrow> consumes (Alt a b) t"
  by (simp add: consumes_def)

lemma consumes_Alt2: "consumes b t \<Longrightarrow> consumes (Alt a b) t"
  by (simp add: consumes_def)

lemma consumes_Opt: "consumes a t \<Longrightarrow> consumes (Opt a) t"
  by (simp add: consumes_def Opt_def)

lemma consumes_Opt_skip: "consumes (Opt a) []"
  by (simp add: consumes_def Opt_def lastOpt_def)

lemma consumes_Star_skip: "consumes (Star a) []"
  by (simp add: consumes_def lastOpt_def starIter_refl)

lemma consumes_rep_digits: "list_all isDigit ds \<Longrightarrow> length ds = n \<Longrightarrow> consumes (rep n digit) ds"
  using rxm_rep_digits by (auto simp: consumes_def)

lemma consumes_Star_digits: "list_all isDigit ds \<Longrightarrow> consumes (Star digit) ds"
  using rxm_Star_digits by (simp add: consumes_def)

lemma consumes_Plus_digits: "list_all isDigit ds \<Longrightarrow> ds \<noteq> [] \<Longrightarrow> consumes (Plus digit) ds"
proof -
  assume all: "list_all isDigit ds" and ne: "ds \<noteq> []"
  then obtain d ds' where ds: "ds = [d] @ ds'" by (cases ds) auto
  from all ds have "consumes digit [d]"
    by (simp add: consumes_def digit_def lastOpt_def)
  moreover from all ds have "consumes (Star digit) ds'" by (simp add: consumes_Star_digits)
  ultimately show ?thesis unfolding Plus_def ds by (rule consumes_Seq)
qed

lemma consumes_stri:
  "list_all2 (\<lambda>d c. canonicalize d = canonicalize c) t w \<Longrightarrow> consumes (stri w) t"
  using rxm_stri by (simp add: consumes_def)

lemma consumes_oneOf: "c \<in> set cs \<Longrightarrow> consumes (oneOf cs) [c]"
  by (simp add: consumes_def oneOf_def lastOpt_def)

lemma accepts_Seq: "consumes a t \<Longrightarrow> accepts k (lastOpt prev t, rest) \<Longrightarrow> accepts (Seq a k) (prev, t @ rest)"
proof -
  assume a: "consumes a t" and k: "accepts k (lastOpt prev t, rest)"
  from k obtain q where q: "q \<in> set (rxm k (lastOpt prev t, rest))"
    by (cases "rxm k (lastOpt prev t, rest)") (auto simp: accepts_def)
  from a have "(lastOpt prev t, rest) \<in> set (rxm a (prev, t @ rest))" by (simp add: consumes_def)
  from rxm_SeqI [OF this q] show ?thesis unfolding accepts_def by (metis empty_iff empty_set)
qed

lemma accepts_skip: "consumes a [] \<Longrightarrow> accepts k p \<Longrightarrow> accepts (Seq a k) p"
  using accepts_Seq [of a "[]" k "fst p" "snd p"] by (simp add: lastOpt_def)

lemma accepts_consumes: "consumes a t \<Longrightarrow> accepts a (prev, t @ rest)"
  unfolding accepts_def consumes_def by (metis empty_iff empty_set)

lemma accepts_Bol: "accepts k (None, s) \<Longrightarrow> accepts (Seq Bol k) (None, s)"
  by (simp add: accepts_def)

lemma accepts_Eol: "accepts (Seq Eol Eps) (prev, [])"
  by (simp add: accepts_def)

lemma accepts_test: "accepts r (lastOpt None pre, post) \<Longrightarrow> test r (pre @ post)"
  unfolding test_def accepts_def by (rule search_append)

lemma accepts_test_start: "accepts r (None, s) \<Longrightarrow> test r s"
  using accepts_test [of r "[]" s] by (simp add: lastOpt_def)

lemma justNumbers_digits:
  assumes "ds \<noteq> []" "list_all isDigit ds"
  shows "test (seqs [Bol, Plus digit, Star (Alt space (lit CHR ''.'')), Star digit,
                     Opt (lit CHR ''.''), Eol]) ds"
proof -
  have 1: "consumes (Plus digit) ds" using assms by (simp add: consumes_Plus_digits)
  have "accepts (Seq (Star (Alt space (lit CHR ''.'')))
                  (Seq (Star digit) (Seq (Opt (lit CHR ''.'')) (Seq Eol Eps))))
          (lastOpt None ds, [])"
    by (intro accepts_skip consumes_Star_skip consumes_Opt_skip accepts_Eol)
  with accepts_Seq [OF 1, of _ None "[]"] show ?thesis
    by (intro accepts_test_start) (simp add: accepts_Bol)
qed


section \<open>Words inside an utterance\<close>

lemma isPrefixOf_split: "isPrefixOf p s \<Longrightarrow> \<exists>post. s = p @ post"
  by (induction p s rule: isPrefixOf.induct) auto

lemma strIncludes_split: "strIncludes s p \<Longrightarrow> \<exists>pre post. s = pre @ p @ post"
proof (induction s)
  case Nil
  then show ?case by simp
next
  case (Cons c s)
  show ?case
  proof (cases "isPrefixOf p (c # s)")
    case True
    then obtain post where "c # s = p @ post" using isPrefixOf_split by blast
    then have "c # s = [] @ p @ post" by simp
    then show ?thesis by blast
  next
    case False
    with Cons obtain pre post where "s = pre @ p @ post" by auto
    then have "c # s = (c # pre) @ p @ post" by simp
    then show ?thesis by blast
  qed
qed

lemma lowered_fold:
  assumes "map toLowerChar t = w" and "map toLowerChar w = w"
  shows "list_all2 (\<lambda>d c. canonicalize d = canonicalize c) t w"
proof -
  have "length t = length w" using assms(1) by auto
  moreover have "canonicalize (t ! i) = canonicalize (w ! i)" if "i < length t" for i
  proof -
    have "toLowerChar (t ! i) = w ! i" using assms(1) that by auto
    moreover have "toLowerChar (w ! i) = w ! i"
      using assms(2) that \<open>length t = length w\<close> by (metis nth_map)
    ultimately show ?thesis by (simp add: lower_fold)
  qed
  ultimately show ?thesis by (simp add: list_all2_conv_all_nth)
qed


lemma lowered_not_space: "toLowerChar d = c \<Longrightarrow> \<not> isSpace c \<Longrightarrow> \<not> isSpace d"
  by (cases d; simp add: toLowerChar_bits isSpace_def split: if_splits; blast)

lemma mentions_word:
  assumes "strIncludes (toLowerCase s) w" and "map toLowerChar w = w"
    and "w \<noteq> []" and "\<not> isSpace (hd w)" and "\<not> isSpace (last w)"
  shows "hasWord w s"
proof -
  from assms(1) obtain pre' post' where "map toLowerChar s = pre' @ w @ post'"
    unfolding toLowerCase_def using strIncludes_split by blast
  then obtain pre t post where s: "s = pre @ t @ post" and t: "map toLowerChar t = w"
    by (auto simp: map_eq_append_conv append_eq_map_conv)
  from lowered_fold [OF t assms(2)] have c: "consumes (stri w) t" by (rule consumes_stri)
  from t assms(3) have ne: "t \<noteq> []" by auto
  from t ne have "toLowerChar (hd t) = hd w" "toLowerChar (last t) = last w"
    by (auto simp: hd_map last_map)
  with assms(4,5) have "\<not> isSpace (hd t)" "\<not> isSpace (last t)"
    using lowered_not_space by blast+
  with s c ne show ?thesis unfolding hasWord_def by blast
qed

lemma dropWhile_keeps:
  "t \<noteq> [] \<Longrightarrow> \<not> P (hd t) \<Longrightarrow> \<exists>pre'. dropWhile P (pre @ t @ post) = pre' @ t @ post"
proof (induction pre)
  case Nil
  then have "dropWhile P (t @ post) = [] @ t @ post" by (cases t) auto
  then show ?case by simp
next
  case (Cons c pre)
  show ?case
  proof (cases "P c")
    case True
    with Cons show ?thesis by simp
  next
    case False
    then have "dropWhile P ((c # pre) @ t @ post) = (c # pre) @ t @ post" by simp
    then show ?thesis by blast
  qed
qed

lemma trim_keeps:
  assumes "t \<noteq> []" and "\<not> isSpace (hd t)" and "\<not> isSpace (last t)"
  shows "\<exists>pre' post'. trim (pre @ t @ post) = pre' @ t @ post'"
proof -
  from dropWhile_keeps [where P = isSpace, OF assms(1,2)] obtain pre' where
    1: "dropWhile isSpace (pre @ t @ post) = pre' @ t @ post" by blast
  have "rev t \<noteq> []" "\<not> isSpace (hd (rev t))" using assms by (simp_all add: hd_rev)
  from dropWhile_keeps [where P = isSpace, OF this, of "rev post" "rev pre'"] obtain q where
    2: "dropWhile isSpace (rev post @ rev t @ rev pre') = q @ rev t @ rev pre'" by blast
  have "trim (pre @ t @ post) = pre' @ t @ rev q"
    unfolding trim_def 1 using 2 by simp
  then show ?thesis by blast
qed

lemma hasWord_trim: "hasWord w s \<Longrightarrow> hasWord w (trim s)"
  unfolding hasWord_def using trim_keeps by metis

lemma tomorrow_lower: "map toLowerChar ''tomorrow'' = ''tomorrow''"
  by code_simp

lemma tomorrow_hasWord:
  assumes "strIncludes (toLowerCase s) ''tomorrow''"
  shows "hasWord ''tomorrow'' s"
proof -
  have "\<not> isSpace (hd ''tomorrow'')" "\<not> isSpace (last ''tomorrow'')" by code_simp+
  from mentions_word [OF assms tomorrow_lower _ this] show ?thesis by simp
qed

lemma hasWord_tomorrow_ending:
  assumes "hasWord ''tomorrow'' s"
  shows "isSessionEnding s"
proof -
  from hasWord_trim [OF assms] obtain pre t post where
    x: "trim s = pre @ t @ post" and c: "consumes (stri ''tomorrow'') t"
    unfolding hasWord_def by blast
  from c have "consumes (words [''see you tomorrow'', ''talk tomorrow'', ''tomorrow'']) t"
    by (simp add: words_def anyOf_def consumes_Alt1 consumes_Alt2)
  then have "accepts (words [''see you tomorrow'', ''talk tomorrow'', ''tomorrow''])
               (lastOpt None pre, t @ post)"
    by (rule accepts_consumes)
  then have "test (words [''see you tomorrow'', ''talk tomorrow'', ''tomorrow'']) (trim s)"
    unfolding x by (rule accepts_test)
  then show ?thesis
    unfolding isSessionEnding_def endPhrases_def by (simp del: rxm.simps)
qed

lemma tomorrow_is_ending:
  "strIncludes (toLowerCase s) ''tomorrow'' \<Longrightarrow> isSessionEnding s \<and> isSessionEnding (trim s)"
  by (simp add: tomorrow_hasWord hasWord_trim hasWord_tomorrow_ending)

lemma lower_digit: "isDigit c \<Longrightarrow> toLowerChar c = c"
  unfolding isDigit_def by (auto simp: toLowerChar_bits)

lemma consumes_sep:
  assumes "s \<in> {[], ''-'', ''.''}"
  shows "consumes (Opt (oneOf ''-.'')) s"
proof -
  from assms consider "s = []" | "s = ''-''" | "s = ''.''" by auto
  then show ?thesis
  proof cases
    case 1
    then show ?thesis by (simp add: consumes_Opt_skip)
  next
    case 2
    then show ?thesis by (simp add: consumes_Opt consumes_oneOf)
  next
    case 3
    then show ?thesis by (simp add: consumes_Opt consumes_oneOf)
  qed
qed

lemma phone_pattern:
  assumes "list_all isDigit a" "length a = 3" "list_all isDigit b" "length b = 3"
    "list_all isDigit c" "length c = 4" "s1 \<in> {[], ''-'', ''.''}" "s2 \<in> {[], ''-'', ''.''}"
  shows "test (seqs [Bol, rep 3 digit, Opt (oneOf ''-.''), rep 3 digit, Opt (oneOf ''-.''),
            rep 4 digit, Opt (lit CHR ''.''), Eol]) (a @ s1 @ b @ s2 @ c)"
proof -
  define k6 where "k6 = Seq (Opt (lit CHR ''.'')) (Seq Eol Eps)"
  define k5 where "k5 = Seq (rep 4 digit) k6"
  define k4 where "k4 = Seq (Opt (oneOf ''-.'')) k5"
  define k3 where "k3 = Seq (rep 3 digit) k4"
  define k2 where "k2 = Seq (Opt (oneOf ''-.'')) k3"
  define k1 where "k1 = Seq (rep 3 digit) k2"
  have 6: "accepts k6 (prev, [])" for prev
    unfolding k6_def by (intro accepts_skip consumes_Opt_skip accepts_Eol)
  have 5: "accepts k5 (prev, c @ [])" for prev
    unfolding k5_def by (rule accepts_Seq [OF consumes_rep_digits [OF assms(5,6)] 6])
  have 4: "accepts k4 (prev, s2 @ c @ [])" for prev
    unfolding k4_def by (rule accepts_Seq [OF consumes_sep [OF assms(8)] 5])
  have 3: "accepts k3 (prev, b @ s2 @ c @ [])" for prev
    unfolding k3_def by (rule accepts_Seq [OF consumes_rep_digits [OF assms(3,4)] 4])
  have 2: "accepts k2 (prev, s1 @ b @ s2 @ c @ [])" for prev
    unfolding k2_def by (rule accepts_Seq [OF consumes_sep [OF assms(7)] 3])
  have 1: "accepts k1 (None, a @ s1 @ b @ s2 @ c @ [])"
    unfolding k1_def by (rule accepts_Seq [OF consumes_rep_digits [OF assms(1,2)] 2])
  have "accepts (Seq Bol k1) (None, a @ s1 @ b @ s2 @ c)"
    using 1 by (simp add: accepts_Bol)
  then have "test (Seq Bol k1) (a @ s1 @ b @ s2 @ c)" by (rule accepts_test_start)
  then show ?thesis
    unfolding k1_def k2_def k3_def k4_def k5_def k6_def by (simp del: rep.simps)
qed

lemma phone_lower:
  assumes "list_all isDigit a" "list_all isDigit b" "list_all isDigit c"
    "s1 \<in> {[], ''-'', ''.''}" "s2 \<in> {[], ''-'', ''.''}"
  shows "toLowerCase (a @ s1 @ b @ s2 @ c) = a @ s1 @ b @ s2 @ c"
proof -
  have d: "map toLowerChar ds = ds" if "list_all isDigit ds" for ds
    using that by (induction ds) (simp_all add: lower_digit)
  have s: "map toLowerChar s = s" if "s \<in> {[], ''-'', ''.''}" for s
    using that by (auto simp: toLowerChar_bits)
  show ?thesis using assms by (simp add: toLowerCase_def d s)
qed

lemma phone_shape_voicemail:
  assumes "list_all isDigit a" "length a = 3" "list_all isDigit b" "length b = 3"
    "list_all isDigit c" "length c = 4" "s1 \<in> {[], ''-'', ''.''}" "s2 \<in> {[], ''-'', ''.''}"
  shows "isVoicemailMessage (a @ s1 @ b @ s2 @ c)"
proof -
  have "list_ex (\<lambda>pattern. test pattern (toLowerCase (a @ s1 @ b @ s2 @ c))) voicemailPatterns"
    unfolding phone_lower [OF assms(1,3,5,7,8)] voicemailPatterns_def list_ex_iff
    using phone_pattern [OF assms] by (simp del: rxm.simps rep.simps seqs.simps)
  then show ?thesis by (simp add: isVoicemailMessage_def Let_def)
qed


section \<open>The classifiers on numbers\<close>

text \<open>
  C10. Every input that, once trimmed, is a non-empty string of digits, of any length
  (a single digit included), is classified as voicemail: the just-numbers pattern
  \<open>/^\d+[\s.]*\d*\.?$/\<close> matches it.
\<close>

theorem digits_only_is_voicemail:
  assumes "trim s \<noteq> []" and "list_all isDigit (trim s)"
  shows "isVoicemailMessage s"
  using justNumbers_digits [OF assms] by (simp add: isVoicemailMessage_def Let_def)

theorem digits_only_is_voicemail_witness:
  "trim '' 1 '' \<noteq> [] \<and> list_all isDigit (trim '' 1 '') \<and> isVoicemailMessage '' 1 ''"
proof -
  have h1: "trim '' 1 '' \<noteq> []" by code_simp
  have h2: "list_all isDigit (trim '' 1 '')" by code_simp
  from h1 h2 digits_only_is_voicemail [OF h1 h2] show ?thesis by simp
qed

text \<open>
  C2, as the code has it. Three digits, an optional \<open>-\<close> or \<open>.\<close>, three digits, an
  optional \<open>-\<close> or \<open>.\<close>, four digits: every such input is classified as voicemail.
  The separators of the pattern \<open>/^\d{3}[-.]?\d{3}[-.]?\d{4}\.?$/\<close> are the hyphen and
  the period.
\<close>

theorem phone_shape_is_voicemail:
  assumes "list_all isDigit a" "length a = 3" "list_all isDigit b" "length b = 3"
    "list_all isDigit c" "length c = 4" "s1 \<in> {[], ''-'', ''.''}" "s2 \<in> {[], ''-'', ''.''}"
  shows "isVoicemailMessage (a @ s1 @ b @ s2 @ c)"
  using assms by (rule phone_shape_voicemail)

theorem phone_shape_is_voicemail_witness:
  "isVoicemailMessage (''858'' @ ''-'' @ ''386'' @ ''-'' @ ''6200'')"
proof -
  have "list_all isDigit ''858''" "list_all isDigit ''386''" "list_all isDigit ''6200''"
    by code_simp+
  then show ?thesis by (intro phone_shape_is_voicemail) simp_all
qed

text \<open>
  C2, as stated, fails on its own example: the three groups of \<open>858 386 6200\<close> are
  separated by spaces, which no pattern of the classifier allows between three groups
  of digits.
\<close>

theorem spaced_phone_number_not_voicemail: "\<not> isVoicemailMessage ''858 386 6200''"
  by code_simp


section \<open>The end-intent classifier\<close>

text \<open>
  C3, as the code has it. The closing patterns are anchored at both ends: \<open>that's it\<close>
  and \<open>thanks\<close> end the session as whole utterances, \<open>that's it, thanks\<close> does not, and
  \<open>add a task to call mom\<close> does not either.
\<close>

theorem closing_phrases_are_whole_utterances:
  "isSessionEnding ''that's it'' \<and> isSessionEnding ''thanks''
   \<and> \<not> isSessionEnding ''that's it, thanks''
   \<and> \<not> isSessionEnding ''add a task to call mom''"
  by code_simp

text \<open>C3, as stated, fails on its first input.\<close>

theorem thats_it_thanks_does_not_end: "\<not> isSessionEnding ''that's it, thanks''"
  by code_simp


section \<open>The handlers\<close>

lemma andThen_InrE:
  assumes "andThen m f w = (Inr y, w')"
  obtains x w1 where "m w = (Inr x, w1)" and "f x w1 = (Inr y, w')"
  using assms by (auto simp: andThen_def split: prod.splits sum.splits)

lemma tryCatch_ret:
  "tryCatch m (\<lambda>err. ret x) w =
     (case m w of (Inl err, w') \<Rightarrow> (Inr x, w') | (Inr y, w') \<Rightarrow> (Inr y, w'))"
  by (simp add: tryCatch_def ret_def)

lemma andThen_ret: "andThen (ret x) f = f x"
  by (rule ext) (simp add: andThen_def ret_def)

lemma say_legal: "list_all xmlLegalChar line \<Longrightarrow> say line = ret (Say voice line)"
  by (simp add: say_def)

lemma say_illegal:
  "\<not> list_all xmlLegalChar line \<Longrightarrow> say line w = (Inl (Thrown ''Invalid character in string''), w)"
  by (simp add: say_def await_def)

lemma say_InrE:
  assumes "say line w = (Inr v, w')"
  obtains "v = Say voice line" and "w' = w" and "list_all xmlLegalChar line"
  using assms by (auto simp: say_def ret_def await_def split: if_splits)

lemma fixed_lines_legal:
  "list_all xmlLegalChar ''Session complete. Talk tomorrow!''"
  "list_all xmlLegalChar ''Voicemail detected. Call back when you can actually talk.''"
  "list_all xmlLegalChar ''Let's stay focused. What's your main priority?''"
  by code_simp+

lemma say_fixed:
  "say ''Session complete. Talk tomorrow!'' = ret (Say voice ''Session complete. Talk tomorrow!'')"
  "say ''Voicemail detected. Call back when you can actually talk.''
     = ret (Say voice ''Voicemail detected. Call back when you can actually talk.'')"
  "say ''Let's stay focused. What's your main priority?''
     = ret (Say voice ''Let's stay focused. What's your main priority?'')"
  by (rule say_legal, rule fixed_lines_legal)+

lemma handleSessionEnd_catch:
  "handleSessionEnd e callSid userInput =
     tryCatch (handleSessionEndBody e callSid userInput)
       (\<lambda>err. ret (Xml [Say voice ''Session complete. Talk tomorrow!'', Hangup]))"
  by (simp add: handleSessionEnd_def say_fixed andThen_ret)

lemma normal_branch:
  assumes "\<not> isVoicemailMessage (trim (jsString (orElse (SpeechResult req) (Some []))))"
    and "\<not> isSessionEnding (trim (jsString (orElse (SpeechResult req) (Some []))))"
    and "CallStatus req \<noteq> Some ''completed''" and "CallStatus req \<noteq> Some ''no-answer''"
  shows "handleGather e req =
     tryCatch (gatherTurn e (CallSid req) (trim (jsString (orElse (SpeechResult req) (Some [])))))
          (\<lambda>err. ret (Xml [Say voice ''Let's stay focused. What's your main priority?'',
                           Gather [(''input'', ''speech''), (''action'', ''/gather''),
                                   (''speechTimeout'', ''auto'')]]))"
  using assms by (simp add: handleGather_def Let_def say_fixed andThen_ret)

lemma handleSessionEndBody_reply:
  assumes "handleSessionEndBody e callSid userInput w = (Inr y, w')"
  shows "\<exists>line. y = Xml [Say voice line, Hangup]"
  using assms unfolding handleSessionEndBody_def
  by (auto elim!: andThen_InrE say_InrE simp: ret_def)

lemma handleSessionEnd_hangs_up:
  "\<exists>line w'. handleSessionEnd e callSid userInput w = (Inr (Xml [Say voice line, Hangup]), w')"
proof (cases "handleSessionEndBody e callSid userInput w")
  case (Pair r w')
  show ?thesis
  proof (cases r)
    case (Inl err)
    with Pair show ?thesis by (simp add: handleSessionEnd_catch tryCatch_ret)
  next
    case (Inr y)
    with Pair handleSessionEndBody_reply obtain line where "y = Xml [Say voice line, Hangup]"
      by blast
    with Pair Inr show ?thesis by (simp add: handleSessionEnd_catch tryCatch_ret)
  qed
qed

lemma handleSessionEnd_caught:
  "handleSessionEndBody e callSid userInput w = (Inl err, w') \<Longrightarrow>
   handleSessionEnd e callSid userInput w
     = (Inr (Xml [Say voice ''Session complete. Talk tomorrow!'', Hangup]), w')"
  by (simp add: handleSessionEnd_catch tryCatch_ret)

lemma getSession_run:
  "getSession e callSid w =
     (Inr (case sessions w callSid of Some s \<Rightarrow> s | None \<Rightarrow> newSession e),
      (case sessions w callSid of Some s \<Rightarrow> w
       | None \<Rightarrow> w\<lparr>sessions := (sessions w)(callSid \<mapsto> newSession e)\<rparr>))"
  by (simp add: getSession_def split: option.splits)

lemma speech_Some: "jsString (orElse (Some s) (Some [])) = s"
  by (simp add: jsString_def orElse_def truthy_def)

lemma sessionEndBody_extraction_throws:
  assumes "extractSessionInsights e (case ctx w callSid of None \<Rightarrow> [] | Some h \<Rightarrow> h)
             (case sessions w callSid of Some s \<Rightarrow> s | None \<Rightarrow> newSession e) = Inl err"
  shows "\<exists>w'. handleSessionEndBody e callSid userInput w = (Inl err, w')"
  using assms
  by (simp add: handleSessionEndBody_def andThen_def getSession_run ctxGet_def await_def
           split: option.splits)

lemma sessionEndBody_finalization_throws:
  assumes "saveSession e (finalSnapshot e
             ((case sessions w callSid of Some s \<Rightarrow> s | None \<Rightarrow> newSession e)
                \<lparr>state := ''ending''\<rparr>)) = Inl err"
  shows "\<exists>err' w'. handleSessionEndBody e callSid userInput w = (Inl err', w')"
  using assms
  by (cases "extractSessionInsights e (case ctx w callSid of None \<Rightarrow> [] | Some h \<Rightarrow> h)
             (case sessions w callSid of Some s \<Rightarrow> s | None \<Rightarrow> newSession e)")
     (simp_all add: handleSessionEndBody_def andThen_def getSession_run ctxGet_def await_def
           setState_def onSession_def update_def endSession_def
           split: option.splits)

text \<open>
  C7. The session-end procedure always answers with one spoken line and a hangup. When
  the insight extraction throws, or the finalization of the session does, the line is
  the generic closing line.
\<close>

theorem session_end_always_hangs_up:
  "\<exists>line w'. handleSessionEnd e callSid userInput w = (Inr (Xml [Say voice line, Hangup]), w')
     \<and> (isl (extractSessionInsights e (case ctx w callSid of None \<Rightarrow> [] | Some h \<Rightarrow> h)
               (case sessions w callSid of Some s \<Rightarrow> s | None \<Rightarrow> newSession e))
         \<or> isl (saveSession e (finalSnapshot e
               ((case sessions w callSid of Some s \<Rightarrow> s | None \<Rightarrow> newSession e)
                  \<lparr>state := ''ending''\<rparr>)))
         \<longrightarrow> line = ''Session complete. Talk tomorrow!'')"
proof (cases "isl (extractSessionInsights e (case ctx w callSid of None \<Rightarrow> [] | Some h \<Rightarrow> h)
               (case sessions w callSid of Some s \<Rightarrow> s | None \<Rightarrow> newSession e))
         \<or> isl (saveSession e (finalSnapshot e
               ((case sessions w callSid of Some s \<Rightarrow> s | None \<Rightarrow> newSession e)
                  \<lparr>state := ''ending''\<rparr>)))")
  case True
  then obtain err w' where "handleSessionEndBody e callSid userInput w = (Inl err, w')"
    using sessionEndBody_extraction_throws [of e w callSid _ userInput]
      sessionEndBody_finalization_throws [of e w callSid _ userInput]
    by (auto simp: isl_def)
  from handleSessionEnd_caught [OF this] show ?thesis by blast
next
  case False
  with handleSessionEnd_hangs_up [of e callSid userInput w] show ?thesis by blast
qed

theorem session_end_always_hangs_up_witness:
  "isl (saveSession (calmEnv\<lparr>saveSession := (\<lambda>s. Inl (Thrown ''store unreachable''))\<rparr>)
         (finalSnapshot (calmEnv\<lparr>saveSession := (\<lambda>s. Inl (Thrown ''store unreachable''))\<rparr>)
            ((case sessions openWorld ''CA1'' of Some s \<Rightarrow> s
              | None \<Rightarrow> newSession (calmEnv\<lparr>saveSession := (\<lambda>s. Inl (Thrown ''store unreachable''))\<rparr>))
               \<lparr>state := ''ending''\<rparr>)))
   \<and> fst (handleSessionEnd (calmEnv\<lparr>saveSession := (\<lambda>s. Inl (Thrown ''store unreachable''))\<rparr>)
            ''CA1'' ''bye'' openWorld)
       = Inr (Xml [Say voice ''Session complete. Talk tomorrow!'', Hangup])"
proof -
  let ?e = "calmEnv\<lparr>saveSession := (\<lambda>s. Inl (Thrown ''store unreachable''))\<rparr>"
  have throws: "isl (saveSession ?e (finalSnapshot ?e
            ((case sessions openWorld ''CA1'' of Some s \<Rightarrow> s | None \<Rightarrow> newSession ?e)
               \<lparr>state := ''ending''\<rparr>)))"
    by simp
  from session_end_always_hangs_up [of ?e "''CA1''" "''bye''" openWorld] throws
  obtain w' where "handleSessionEnd ?e ''CA1'' ''bye'' openWorld
       = (Inr (Xml [Say voice ''Session complete. Talk tomorrow!'', Hangup]), w')"
    by blast
  with throws show ?thesis by simp
qed

lemma sessionEnd_finalizes:
  assumes "extractSessionInsights e (case ctx w callSid of None \<Rightarrow> [] | Some h \<Rightarrow> h)
             (case sessions w callSid of Some s \<Rightarrow> s | None \<Rightarrow> newSession e) = Inr ins"
    and "saveSession e (finalSnapshot e
             ((case sessions w callSid of Some s \<Rightarrow> s | None \<Rightarrow> newSession e)
                \<lparr>state := ''ending''\<rparr>)) = Inr u"
  shows "sessions (snd (handleSessionEnd e callSid userInput w)) callSid = None
       \<and> ctx (snd (handleSessionEnd e callSid userInput w)) callSid = None
       \<and> (\<exists>saved. savedSessions (snd (handleSessionEnd e callSid userInput w))
                     = savedSessions w @ [saved] \<and> state saved = ''ended'')"
proof (cases "list_all xmlLegalChar (getEndingMessage e ins)")
  case True
  with assms show ?thesis
    by (cases "sessions w callSid")
       (simp_all add: handleSessionEnd_catch tryCatch_def handleSessionEndBody_def andThen_def
          getSession_def ctxGet_def await_def setState_def onSession_def update_def
          endSession_def ctxClear_def finalSnapshot_def say_def ret_def)
next
  case False
  with assms show ?thesis
    by (cases "sessions w callSid")
       (simp_all add: handleSessionEnd_catch tryCatch_def handleSessionEndBody_def andThen_def
          getSession_def ctxGet_def await_def setState_def onSession_def update_def
          endSession_def ctxClear_def finalSnapshot_def say_def ret_def)
qed

text \<open>
  C9. Every input that holds the word \<open>tomorrow\<close>, in any case and anywhere, is an end
  intent; so on an utterance that mentions tomorrow and is not classified as voicemail
  \<open>handleGather\<close> does what the session-end procedure \<open>handleSessionEnd\<close> does on the
  trimmed utterance and nothing else: it answers with one spoken line and a hangup, and
  when the insight extraction and the save return, the session is saved as ended and
  removed and the context is cleared. No normal turn takes place.
\<close>

theorem tomorrow_ends_session:
  assumes "strIncludes (toLowerCase s) ''tomorrow''"
  shows "isSessionEnding s \<and>
         (SpeechResult req = Some s \<and> \<not> isVoicemailMessage (trim s) \<longrightarrow>
            handleGather e req w = handleSessionEnd e (CallSid req) (trim s) w
            \<and> (\<exists>line w'. handleGather e req w = (Inr (Xml [Say voice line, Hangup]), w'))
            \<and> (\<not> isl (extractSessionInsights e
                        (case ctx w (CallSid req) of None \<Rightarrow> [] | Some h \<Rightarrow> h)
                        (case sessions w (CallSid req) of Some x \<Rightarrow> x | None \<Rightarrow> newSession e))
               \<and> \<not> isl (saveSession e (finalSnapshot e
                        ((case sessions w (CallSid req) of Some x \<Rightarrow> x | None \<Rightarrow> newSession e)
                           \<lparr>state := ''ending''\<rparr>)))
               \<longrightarrow> sessions (snd (handleGather e req w)) (CallSid req) = None
                   \<and> ctx (snd (handleGather e req w)) (CallSid req) = None
                   \<and> (\<exists>saved. savedSessions (snd (handleGather e req w))
                                 = savedSessions w @ [saved] \<and> state saved = ''ended'')))"
proof (intro conjI impI)
  from tomorrow_is_ending [OF assms] show "isSessionEnding s" by simp
next
  assume "SpeechResult req = Some s \<and> \<not> isVoicemailMessage (trim s)"
  moreover from tomorrow_is_ending [OF assms] have "isSessionEnding (trim s)" by simp
  ultimately show path: "handleGather e req w = handleSessionEnd e (CallSid req) (trim s) w"
    by (simp add: handleGather_def Let_def speech_Some)
  from handleSessionEnd_hangs_up [of e "CallSid req" "trim s" w]
  show "\<exists>line w'. handleGather e req w = (Inr (Xml [Say voice line, Hangup]), w')"
    unfolding path .
  assume ok: "\<not> isl (extractSessionInsights e
                        (case ctx w (CallSid req) of None \<Rightarrow> [] | Some h \<Rightarrow> h)
                        (case sessions w (CallSid req) of Some x \<Rightarrow> x | None \<Rightarrow> newSession e))
               \<and> \<not> isl (saveSession e (finalSnapshot e
                        ((case sessions w (CallSid req) of Some x \<Rightarrow> x | None \<Rightarrow> newSession e)
                           \<lparr>state := ''ending''\<rparr>)))"
  obtain ins where ins: "extractSessionInsights e
                        (case ctx w (CallSid req) of None \<Rightarrow> [] | Some h \<Rightarrow> h)
                        (case sessions w (CallSid req) of Some x \<Rightarrow> x | None \<Rightarrow> newSession e)
                      = Inr ins"
    using ok by (cases "extractSessionInsights e
                        (case ctx w (CallSid req) of None \<Rightarrow> [] | Some h \<Rightarrow> h)
                        (case sessions w (CallSid req) of Some x \<Rightarrow> x | None \<Rightarrow> newSession e)")
      simp_all
  obtain u where u: "saveSession e (finalSnapshot e
                        ((case sessions w (CallSid req) of Some x \<Rightarrow> x | None \<Rightarrow> newSession e)
                           \<lparr>state := ''ending''\<rparr>)) = Inr u"
    using ok by (cases "saveSession e (finalSnapshot e
                        ((case sessions w (CallSid req) of Some x \<Rightarrow> x | None \<Rightarrow> newSession e)
                           \<lparr>state := ''ending''\<rparr>))") simp_all
  from sessionEnd_finalizes [OF ins u, of "trim s"]
  show "sessions (snd (handleGather e req w)) (CallSid req) = None"
    and "ctx (snd (handleGather e req w)) (CallSid req) = None"
    and "\<exists>saved. savedSessions (snd (handleGather e req w))
                                 = savedSessions w @ [saved] \<and> state saved = ''ended''"
    unfolding path by (rule conjunct1, rule conjunct2 [THEN conjunct1],
                       rule conjunct2 [THEN conjunct2])
qed

theorem tomorrow_ends_session_witness:
  "strIncludes (toLowerCase ''Put a meeting on the calendar Tomorrow'') ''tomorrow''
   \<and> isSessionEnding ''Put a meeting on the calendar Tomorrow''
   \<and> \<not> isVoicemailMessage (trim ''Put a meeting on the calendar Tomorrow'')
   \<and> handleGather calmEnv (utterance ''Put a meeting on the calendar Tomorrow'') openWorld
       = handleSessionEnd calmEnv ''CA1'' (trim ''Put a meeting on the calendar Tomorrow'')
           openWorld
   \<and> (\<exists>line. fst (handleGather calmEnv (utterance ''Put a meeting on the calendar Tomorrow'')
                     openWorld) = Inr (Xml [Say voice line, Hangup]))"
proof -
  have a: "strIncludes (toLowerCase ''Put a meeting on the calendar Tomorrow'') ''tomorrow''"
    by code_simp
  have b: "\<not> isVoicemailMessage (trim ''Put a meeting on the calendar Tomorrow'')"
    by code_simp
  have c: "SpeechResult (utterance ''Put a meeting on the calendar Tomorrow'')
             = Some ''Put a meeting on the calendar Tomorrow''"
    by (simp add: utterance_def)
  have sid: "CallSid (utterance ''Put a meeting on the calendar Tomorrow'') = ''CA1''"
    by (simp add: utterance_def)
  note t = tomorrow_ends_session [OF a, of "utterance ''Put a meeting on the calendar Tomorrow''"
      calmEnv openWorld, unfolded sid]
  from t have e: "isSessionEnding ''Put a meeting on the calendar Tomorrow''"
    by (rule conjunct1)
  from t [THEN conjunct2, rule_format, OF conjI [OF c b]]
  have p: "handleGather calmEnv (utterance ''Put a meeting on the calendar Tomorrow'') openWorld
       = handleSessionEnd calmEnv ''CA1'' (trim ''Put a meeting on the calendar Tomorrow'')
           openWorld"
    and "\<exists>line w'. handleGather calmEnv (utterance ''Put a meeting on the calendar Tomorrow'')
           openWorld = (Inr (Xml [Say voice line, Hangup]), w')"
    by (rule conjunct1, rule conjunct2 [THEN conjunct1])
  then obtain line w' where
    "handleGather calmEnv (utterance ''Put a meeting on the calendar Tomorrow'')
           openWorld = (Inr (Xml [Say voice line, Hangup]), w')"
    by (elim exE)
  then have "fst (handleGather calmEnv (utterance ''Put a meeting on the calendar Tomorrow'')
           openWorld) = Inr (Xml [Say voice line, Hangup])"
    by (simp only: fst_conv)
  then have h: "\<exists>line. fst (handleGather calmEnv
           (utterance ''Put a meeting on the calendar Tomorrow'') openWorld)
             = Inr (Xml [Say voice line, Hangup])"
    by (rule exI)
  from a e b p h show ?thesis by (intro conjI)
qed

lemma gatherTurn_reply:
  assumes "gatherTurn e callSid userInput w = (Inr y, w')"
  shows "\<exists>line. y = Xml [Say voice line,
               Gather [(''input'', ''speech''), (''action'', ''/gather''),
                       (''speechTimeout'', ''auto''), (''timeout'', ''8''),
                       (''finishOnKey'', ''#'')]]"
  using assms unfolding gatherTurn_def Let_def
  by (auto elim!: andThen_InrE say_InrE simp: ret_def split: prod.splits)

text \<open>
  C6. On a normal turn (no voicemail, no end intent, no terminal status handled before
  the \<open>try\<close> block) \<open>handleGather\<close> always answers with TwiML and never with an error;
  when anything in the \<open>try\<close> block throws, the answer is the fixed fallback line and
  the instruction to keep listening.
\<close>

theorem normal_turn_failure_falls_back:
  assumes "\<not> isVoicemailMessage (trim (jsString (orElse (SpeechResult req) (Some []))))"
    and "\<not> isSessionEnding (trim (jsString (orElse (SpeechResult req) (Some []))))"
    and "CallStatus req \<noteq> Some ''completed''" and "CallStatus req \<noteq> Some ''no-answer''"
  shows "\<exists>verbs w'. handleGather e req w = (Inr (Xml verbs), w') \<and>
           (isl (fst (gatherTurn e (CallSid req)
                   (trim (jsString (orElse (SpeechResult req) (Some [])))) w)) \<longrightarrow>
              verbs = [Say voice ''Let's stay focused. What's your main priority?'',
                       Gather [(''input'', ''speech''), (''action'', ''/gather''),
                               (''speechTimeout'', ''auto'')]])"
proof (cases "gatherTurn e (CallSid req) (trim (jsString (orElse (SpeechResult req) (Some [])))) w")
  case (Pair r w')
  show ?thesis
  proof (cases r)
    case (Inl err)
    with Pair assms show ?thesis
      by (simp add: normal_branch tryCatch_ret)
  next
    case (Inr y)
    with Pair gatherTurn_reply obtain line where "y = Xml [Say voice line,
               Gather [(''input'', ''speech''), (''action'', ''/gather''),
                       (''speechTimeout'', ''auto''), (''timeout'', ''8''),
                       (''finishOnKey'', ''#'')]]" by blast
    with Pair Inr assms show ?thesis
      by (simp add: normal_branch tryCatch_ret)
  qed
qed

theorem normal_turn_failure_falls_back_witness:
  "\<not> isVoicemailMessage (trim ''what should I do first'')
   \<and> \<not> isSessionEnding (trim ''what should I do first'')
   \<and> isl (fst (gatherTurn (calmEnv\<lparr>llmReply := (\<lambda>h. Inl (Thrown ''timeout''))\<rparr>) ''CA1''
                  (trim ''what should I do first'') openWorld))
   \<and> fst (handleGather (calmEnv\<lparr>llmReply := (\<lambda>h. Inl (Thrown ''timeout''))\<rparr>)
            (utterance ''what should I do first'') openWorld)
       = Inr (Xml [Say voice ''Let's stay focused. What's your main priority?'',
                   Gather [(''input'', ''speech''), (''action'', ''/gather''),
                           (''speechTimeout'', ''auto'')]])"
proof -
  let ?e = "calmEnv\<lparr>llmReply := (\<lambda>h. Inl (Thrown ''timeout''))\<rparr>"
  let ?req = "utterance ''what should I do first''"
  have sp: "trim (jsString (orElse (SpeechResult ?req) (Some [])))
              = trim ''what should I do first''"
    by (simp add: utterance_def speech_Some)
  have nv: "\<not> isVoicemailMessage (trim ''what should I do first'')" by code_simp
  have ne: "\<not> isSessionEnding (trim ''what should I do first'')" by code_simp
  have st: "CallStatus ?req \<noteq> Some ''completed''" "CallStatus ?req \<noteq> Some ''no-answer''"
    by (simp_all add: utterance_def)
  have sid: "CallSid ?req = ''CA1''" by (simp add: utterance_def)
  have th: "isl (fst (gatherTurn ?e ''CA1'' (trim ''what should I do first'') openWorld))"
    by code_simp
  from normal_turn_failure_falls_back [of ?req ?e openWorld] nv ne st th
  obtain w' where "handleGather ?e ?req openWorld
       = (Inr (Xml [Say voice ''Let's stay focused. What's your main priority?'',
                   Gather [(''input'', ''speech''), (''action'', ''/gather''),
                           (''speechTimeout'', ''auto'')]]), w')"
    unfolding sp sid by blast
  with nv ne th show ?thesis by simp
qed









lemma tool_turn_records:
  assumes ui: "userInput = trim (jsString (orElse (SpeechResult req) (Some [])))"
    and se: "sess = (case sessions w (CallSid req) of Some s \<Rightarrow> s | None \<Rightarrow> newSession e)"
    and hi: "history = (case ctx w (CallSid req) of None \<Rightarrow> [] | Some h \<Rightarrow> h)
                         @ [\<lparr> role = ''user'', content = userInput \<rparr>]"
    and nv: "\<not> isVoicemailMessage userInput" and ne: "\<not> isSessionEnding userInput"
    and st: "CallStatus req \<noteq> Some ''completed''" "CallStatus req \<noteq> Some ''no-answer''"
    and nt: "test needsToolsPattern userInput" and nc: "\<not> test commitmentPattern userInput"
    and llm: "llmReplyWithTools e history = Inr r" and tc: "rtype r = ''tool_call''"
    and ok: "success (executeToolCall e r)"
    and re: "assistantReply = jsString (orElse (originalResponse r)
                         (Some (''Got it. '' @ resultMessage (executeToolCall e r))))"
    and en: "entry = \<lparr> logCallSid = CallSid req, logUserInput = userInput,
                         logAssistantReply = assistantReply,
                         logToolUsed = Some (tool (executeToolCall e r)),
                         logToolSuccess = Some True, logSessionState = state sess \<rparr>"
  shows "(insertOne e entry = Inr () \<and> list_all xmlLegalChar assistantReply \<longrightarrow>
           fst (handleGather e req w)
             = Inr (Xml [Say voice assistantReply,
                         Gather [(''input'', ''speech''), (''action'', ''/gather''),
                                 (''speechTimeout'', ''auto''), (''timeout'', ''8''),
                                 (''finishOnKey'', ''#'')]]))
       \<and> (\<not> (insertOne e entry = Inr () \<and> list_all xmlLegalChar assistantReply) \<longrightarrow>
           fst (handleGather e req w)
             = Inr (Xml [Say voice ''Let's stay focused. What's your main priority?'',
                         Gather [(''input'', ''speech''), (''action'', ''/gather''),
                                 (''speechTimeout'', ''auto'')]]))
       \<and> (\<exists>s'. sessions (snd (handleGather e req w)) (CallSid req) = Some s'
           \<and> conversation s' = conversation sess
                @ [\<lparr> userText = userInput, agentText = assistantReply,
                     toolUsed = Some (tool (executeToolCall e r)), toolSuccess = Some True \<rparr>]
           \<and> decisions s' = decisions sess
                @ [''Added: '' @ jsString (orElse (orElse (item (executeToolCall e r)) (task r))
                                             (title r))])"
proof -
  have branch: "handleGather e req w =
     tryCatch (gatherTurn e (CallSid req) userInput)
          (\<lambda>err. ret (Xml [Say voice ''Let's stay focused. What's your main priority?'',
                           Gather [(''input'', ''speech''), (''action'', ''/gather''),
                                   (''speechTimeout'', ''auto'')]])) w"
    using nv ne st unfolding ui by (simp add: normal_branch)
  show ?thesis
  proof (cases "insertOne e entry")
    case (Inl err)
    with se hi nt nc llm tc ok re en show ?thesis
      unfolding branch
      by (cases "sessions w (CallSid req)")
         (simp_all add: gatherTurn_def toolTurn_def Let_def
            tryCatch_def andThen_def getSession_def ctxGet_def setSessionType_def
            onSession_def update_def ret_def await_def ctxSet_def addExchange_def
            addDecision_def)
  next
    case (Inr u)
    show ?thesis
    proof (cases "list_all xmlLegalChar assistantReply")
      case True
      with Inr se hi nt nc llm tc ok re en show ?thesis
        unfolding branch
        by (cases "sessions w (CallSid req)")
           (simp_all add: gatherTurn_def toolTurn_def Let_def
              tryCatch_def andThen_def getSession_def ctxGet_def setSessionType_def
              onSession_def update_def ret_def await_def ctxSet_def addExchange_def
              addDecision_def say_def)
    next
      case False
      with Inr se hi nt nc llm tc ok re en show ?thesis
        unfolding branch
        by (cases "sessions w (CallSid req)")
           (simp_all add: gatherTurn_def toolTurn_def Let_def
              tryCatch_def andThen_def getSession_def ctxGet_def setSessionType_def
              onSession_def update_def ret_def await_def ctxSet_def addExchange_def
              addDecision_def say_def)
    qed
  qed
qed

text \<open>
  C4, as the code has it. On a normal turn whose utterance asks for a tool and holds no
  commitment phrase, with the reply generation answering by a tool call whose dispatch
  succeeds: one exchange is recorded, with the tool and its success, and one decision is
  recorded, the line \<open>Added: ...\<close> that a successful dispatch adds; no commitment decision
  is recorded. When the write to the turn log returns and the reply is text that the
  TwiML builder accepts, the spoken reply is the tool call's own response when it has
  one and otherwise \<open>Got it.\<close> followed by the dispatch's success message; when either
  throws, the fallback line is spoken, the exchange and the decision recorded all the
  same.
\<close>

theorem tool_request_records_exchange_and_decision:
  assumes "userInput = trim (jsString (orElse (SpeechResult req) (Some [])))"
    and "sess = (case sessions w (CallSid req) of Some s \<Rightarrow> s | None \<Rightarrow> newSession e)"
    and "history = (case ctx w (CallSid req) of None \<Rightarrow> [] | Some h \<Rightarrow> h)
                     @ [\<lparr> role = ''user'', content = userInput \<rparr>]"
    and "\<not> isVoicemailMessage userInput" and "\<not> isSessionEnding userInput"
    and "CallStatus req \<noteq> Some ''completed''" and "CallStatus req \<noteq> Some ''no-answer''"
    and "test needsToolsPattern userInput" and "\<not> test commitmentPattern userInput"
    and "llmReplyWithTools e history = Inr r" and "rtype r = ''tool_call''"
    and "success (executeToolCall e r)"
    and "assistantReply = jsString (orElse (originalResponse r)
                         (Some (''Got it. '' @ resultMessage (executeToolCall e r))))"
    and "entry = \<lparr> logCallSid = CallSid req, logUserInput = userInput,
                     logAssistantReply = assistantReply,
                     logToolUsed = Some (tool (executeToolCall e r)),
                     logToolSuccess = Some True, logSessionState = state sess \<rparr>"
  shows "(insertOne e entry = Inr () \<and> list_all xmlLegalChar assistantReply \<longrightarrow>
           fst (handleGather e req w)
             = Inr (Xml [Say voice assistantReply,
                         Gather [(''input'', ''speech''), (''action'', ''/gather''),
                                 (''speechTimeout'', ''auto''), (''timeout'', ''8''),
                                 (''finishOnKey'', ''#'')]]))
       \<and> (\<not> (insertOne e entry = Inr () \<and> list_all xmlLegalChar assistantReply) \<longrightarrow>
           fst (handleGather e req w)
             = Inr (Xml [Say voice ''Let's stay focused. What's your main priority?'',
                         Gather [(''input'', ''speech''), (''action'', ''/gather''),
                                 (''speechTimeout'', ''auto'')]]))
       \<and> (\<exists>s'. sessions (snd (handleGather e req w)) (CallSid req) = Some s'
           \<and> conversation s' = conversation sess
                @ [\<lparr> userText = userInput, agentText = assistantReply,
                     toolUsed = Some (tool (executeToolCall e r)), toolSuccess = Some True \<rparr>]
           \<and> decisions s' = decisions sess
                @ [''Added: '' @ jsString (orElse (orElse (item (executeToolCall e r)) (task r))
                                             (title r))])"
  using assms by (rule tool_turn_records)

theorem tool_request_records_exchange_and_decision_witness:
  "test needsToolsPattern ''add a reminder to call the dentist''
   \<and> \<not> test commitmentPattern ''add a reminder to call the dentist''
   \<and> fst (handleGather calmEnv (utterance ''add a reminder to call the dentist'') openWorld)
       = Inr (Xml [Say voice ''Got it. Added to your tasks.'',
                   Gather [(''input'', ''speech''), (''action'', ''/gather''),
                           (''speechTimeout'', ''auto''), (''timeout'', ''8''),
                           (''finishOnKey'', ''#'')]])
   \<and> (\<exists>s'. sessions (snd (handleGather calmEnv
                 (utterance ''add a reminder to call the dentist'') openWorld)) ''CA1'' = Some s'
         \<and> conversation s' =
             [\<lparr> userText = ''SESSION_START'', agentText = ''Morning. What is first?'',
                toolUsed = None, toolSuccess = None \<rparr>,
              \<lparr> userText = ''add a reminder to call the dentist'',
                agentText = ''Got it. Added to your tasks.'',
                toolUsed = Some ''add_task'', toolSuccess = Some True \<rparr>]
         \<and> decisions s' = [''Added: call the dentist''])
   \<and> fst (handleGather (calmEnv\<lparr>insertOne := (\<lambda>entry. Inl (Thrown ''log unreachable''))\<rparr>)
            (utterance ''add a reminder to call the dentist'') openWorld)
       = Inr (Xml [Say voice ''Let's stay focused. What's your main priority?'',
                   Gather [(''input'', ''speech''), (''action'', ''/gather''),
                           (''speechTimeout'', ''auto'')]])
   \<and> (\<exists>s'. sessions (snd (handleGather
                 (calmEnv\<lparr>insertOne := (\<lambda>entry. Inl (Thrown ''log unreachable''))\<rparr>)
                 (utterance ''add a reminder to call the dentist'') openWorld)) ''CA1'' = Some s'
         \<and> decisions s' = [''Added: call the dentist''])"
proof -
  let ?u = "''add a reminder to call the dentist''"
  let ?r = "\<lparr> rtype = ''tool_call'', action = ''add_task'',
        task = Some ''call the dentist'', title = None, time = None,
        originalResponse = None, llmContent = [] \<rparr>"
  let ?e = "calmEnv\<lparr>insertOne := (\<lambda>entry. Inl (Thrown ''log unreachable''))\<rparr>"
  have tr: "trim ?u = ?u" by code_simp
  have ui: "?u = trim (jsString (orElse (SpeechResult (utterance ?u)) (Some [])))"
    by (simp add: utterance_def speech_Some tr)
  have nv: "\<not> isVoicemailMessage ?u" by code_simp
  have ne: "\<not> isSessionEnding ?u" by code_simp
  have nt: "test needsToolsPattern ?u" by code_simp
  have nc: "\<not> test commitmentPattern ?u" by code_simp
  have ex: "executeToolCall calmEnv ?r
              = \<lparr> tool = ''add_task'', success = True,
                  resultMessage = ''Added to your tasks.'', item = Some ''call the dentist'' \<rparr>"
    by (simp add: executeToolCall_def calmEnv_def)
  have ex': "executeToolCall ?e ?r
              = \<lparr> tool = ''add_task'', success = True,
                  resultMessage = ''Added to your tasks.'', item = Some ''call the dentist'' \<rparr>"
    by (simp add: executeToolCall_def calmEnv_def)
  have ok: "success (executeToolCall calmEnv ?r)" by (simp add: ex)
  have ok': "success (executeToolCall ?e ?r)" by (simp add: ex')
  have st: "CallStatus (utterance ?u) \<noteq> Some ''completed''"
    "CallStatus (utterance ?u) \<noteq> Some ''no-answer''"
    by (simp_all add: utterance_def)
  have llm: "llmReplyWithTools calmEnv h = Inr ?r" for h by (simp add: calmEnv_def)
  have llm': "llmReplyWithTools ?e h = Inr ?r" for h by (simp add: calmEnv_def)
  have tc: "rtype ?r = ''tool_call''" by simp
  have log: "insertOne calmEnv entry = Inr ()" for entry by (simp add: calmEnv_def)
  have log': "insertOne ?e entry \<noteq> Inr ()" for entry by simp
  have sid: "CallSid (utterance ?u) = ''CA1''" by (simp add: utterance_def)
  have s0: "sessions openWorld ''CA1'' = Some \<lparr> state = ''overview'', sessionType = ''unknown'',
        conversation = [\<lparr> userText = ''SESSION_START'', agentText = ''Morning. What is first?'',
                          toolUsed = None, toolSuccess = None \<rparr>],
        decisions = [], todaysPlan = Some \<lparr> habits = [] \<rparr>, dayAnalysis = None,
        startedAt = 0, endedAt = None \<rparr>"
    by (simp add: openWorld_def)
  from tool_request_records_exchange_and_decision
    [where userInput = ?u and req = "utterance ?u" and w = openWorld and e = calmEnv
       and r = ?r, OF ui refl refl nv ne st nt nc llm tc ok refl refl]
  have 1: "fst (handleGather calmEnv (utterance ?u) openWorld)
       = Inr (Xml [Say voice ''Got it. Added to your tasks.'',
                   Gather [(''input'', ''speech''), (''action'', ''/gather''),
                           (''speechTimeout'', ''auto''), (''timeout'', ''8''),
                           (''finishOnKey'', ''#'')]])
     \<and> (\<exists>s'. sessions (snd (handleGather calmEnv (utterance ?u) openWorld)) ''CA1'' = Some s'
         \<and> conversation s' =
             [\<lparr> userText = ''SESSION_START'', agentText = ''Morning. What is first?'',
                toolUsed = None, toolSuccess = None \<rparr>,
              \<lparr> userText = ?u, agentText = ''Got it. Added to your tasks.'',
                toolUsed = Some ''add_task'', toolSuccess = Some True \<rparr>]
         \<and> decisions s' = [''Added: call the dentist''])"
    unfolding sid s0 ex
    by (simp add: orElse_def truthy_def jsString_def log xmlLegalChar_def)
  from tool_request_records_exchange_and_decision
    [where userInput = ?u and req = "utterance ?u" and w = openWorld and e = ?e
       and r = ?r, OF ui refl refl nv ne st nt nc llm' tc ok' refl refl]
  have 2: "fst (handleGather ?e (utterance ?u) openWorld)
       = Inr (Xml [Say voice ''Let's stay focused. What's your main priority?'',
                   Gather [(''input'', ''speech''), (''action'', ''/gather''),
                           (''speechTimeout'', ''auto'')]])
     \<and> (\<exists>s'. sessions (snd (handleGather ?e (utterance ?u) openWorld)) ''CA1'' = Some s'
         \<and> decisions s' = [''Added: call the dentist''])"
    unfolding sid s0 ex'
    by (auto simp: orElse_def truthy_def jsString_def)
  from nt nc 1 2 show ?thesis by (intro conjI) simp_all
qed

text \<open>
  C4, as stated, fails on its own example: after the turn the session has a decision,
  the one the successful dispatch records.
\<close>

theorem tool_success_records_a_decision:
  "\<not> test commitmentPattern ''add a reminder to call the dentist''
   \<and> map_option decisions (sessions openWorld ''CA1'') = Some []
   \<and> map_option decisions
         (sessions (snd (handleGather calmEnv
            (utterance ''add a reminder to call the dentist'') openWorld)) ''CA1'')
       = Some [''Added: call the dentist'']"
  by code_simp

text \<open>
  C5 on the code. \<open>handleGather\<close> looks at the call status only after both classifiers,
  knows \<open>completed\<close> and \<open>no-answer\<close> but not \<open>failed\<close>, and does not clear the
  context: a \<open>failed\<close> notification is answered as a normal turn, with a spoken reply,
  the session and the context left in place; a \<open>completed\<close> one ends the session and
  leaves the context. \<open>handleVoice\<close> does all three for all three statuses.
\<close>

theorem failed_status_is_processed_as_a_turn:
  "fst (handleGather calmEnv (statusEvent ''failed'') openWorld)
     = Inr (Xml [Say voice ''Pick one and start.'',
                 Gather [(''input'', ''speech''), (''action'', ''/gather''),
                         (''speechTimeout'', ''auto''), (''timeout'', ''8''),
                         (''finishOnKey'', ''#'')]])
   \<and> sessions (snd (handleGather calmEnv (statusEvent ''failed'') openWorld)) ''CA1'' \<noteq> None
   \<and> ctx (snd (handleGather calmEnv (statusEvent ''failed'') openWorld)) ''CA1'' \<noteq> None
   \<and> fst (handleGather calmEnv (statusEvent ''completed'') openWorld) = Inr Ack
   \<and> sessions (snd (handleGather calmEnv (statusEvent ''completed'') openWorld)) ''CA1'' = None
   \<and> ctx (snd (handleGather calmEnv (statusEvent ''completed'') openWorld)) ''CA1'' \<noteq> None"
  by code_simp

lemma handleVoice_cleans_up_on_failed:
  "fst (handleVoice calmEnv (statusEvent ''failed'') openWorld) = Inr (Some Ack)
   \<and> sessions (snd (handleVoice calmEnv (statusEvent ''failed'') openWorld)) ''CA1'' = None
   \<and> ctx (snd (handleVoice calmEnv (statusEvent ''failed'') openWorld)) ''CA1'' = None"
  by code_simp


section \<open>The insight extractor\<close>




















end
